theory Spec2Isabelle
  imports Complex_Main "HOL-Library.Multiset"
begin

section \<open>JavaScript numbers\<close>

text \<open>
  The server is JavaScript: every \<^verbatim>\<open>Number\<close> is an IEEE-754 binary64 value and every
  arithmetic operator rounds its exact result to the nearest such value, ties to even.
  A finite number is kept as the rational it denotes. The sign of zero is not kept: the
  handlers divide by array lengths only and compare with \<^verbatim>\<open>===\<close>, which does not tell
  the two zeros apart.
\<close>

datatype number = Fin rat | NaN | PosInf | NegInf

text \<open>The number of binary digits of a positive integer.\<close>

function blen :: "int \<Rightarrow> int" where
  "blen n = (if n \<le> 0 then 0 else 1 + blen (n div 2))"
  by pat_completeness auto
termination
  by (relation "measure nat") auto

declare blen.simps [simp del]

text \<open>The binary exponent of a positive rational: \<open>2 powi expo x \<le> x < 2 powi (expo x + 1)\<close>.\<close>

definition expo :: "rat \<Rightarrow> int" where
  "expo x = (if 1 \<le> x then blen \<lfloor>x\<rfloor> - 1 else - blen (\<lceil>1 / x\<rceil> - 1))"

definition round_even :: "rat \<Rightarrow> int" where
  "round_even x = (let f = \<lfloor>x\<rfloor>; d = x - of_int f
                   in if d < 1 / 2 then f
                      else if 1 / 2 < d then f + 1
                      else if even f then f else f + 1)"

text \<open>
  Rounding a positive rational to binary64: 53 significant bits, least exponent \<open>-1022\<close>
  (below it the spacing stays \<open>2 powi (-1074)\<close>), overflow to infinity once the rounded
  value reaches \<open>2 ^ 1024\<close>.
\<close>

definition binary64_pos :: "rat \<Rightarrow> number" where
  "binary64_pos x = (let e = max (expo x) (- 1022);
                         m = round_even (x / 2 powi (e - 52))
                     in if 1023 < e \<or> (e = 1023 \<and> m = 2 ^ 53) then PosInf
                        else Fin (of_int m * 2 powi (e - 52)))"

fun negate :: "number \<Rightarrow> number" where
  "negate (Fin x) = Fin (- x)"
| "negate NaN = NaN"
| "negate PosInf = NegInf"
| "negate NegInf = PosInf"

definition binary64 :: "rat \<Rightarrow> number" where
  "binary64 x = (if x = 0 then Fin 0
                 else if 0 < x then binary64_pos x
                 else negate (binary64_pos (- x)))"

text \<open>The operator \<^verbatim>\<open>/\<close>.\<close>

fun js_div :: "number \<Rightarrow> number \<Rightarrow> number" where
  "js_div (Fin a) (Fin b) =
     (if b = 0 then (if a = 0 then NaN else if 0 < a then PosInf else NegInf)
      else binary64 (a / b))"
| "js_div (Fin a) PosInf = Fin 0"
| "js_div (Fin a) NegInf = Fin 0"
| "js_div PosInf (Fin b) = (if 0 \<le> b then PosInf else NegInf)"
| "js_div NegInf (Fin b) = (if 0 \<le> b then NegInf else PosInf)"
| "js_div _ _ = NaN"

text \<open>The operator \<^verbatim>\<open>*\<close>.\<close>

fun js_mul :: "number \<Rightarrow> number \<Rightarrow> number" where
  "js_mul (Fin a) (Fin b) = binary64 (a * b)"
| "js_mul (Fin a) PosInf = (if a = 0 then NaN else if 0 < a then PosInf else NegInf)"
| "js_mul (Fin a) NegInf = (if a = 0 then NaN else if 0 < a then NegInf else PosInf)"
| "js_mul PosInf (Fin b) = (if b = 0 then NaN else if 0 < b then PosInf else NegInf)"
| "js_mul NegInf (Fin b) = (if b = 0 then NaN else if 0 < b then NegInf else PosInf)"
| "js_mul PosInf PosInf = PosInf"
| "js_mul PosInf NegInf = NegInf"
| "js_mul NegInf PosInf = NegInf"
| "js_mul NegInf NegInf = PosInf"
| "js_mul _ _ = NaN"

text \<open>
  \<^verbatim>\<open>Math.round\<close>: the nearest integer, a half going up. The result is a binary64 value
  again, as every binary64 value of magnitude \<open>2 ^ 52\<close> or more is an integer.
\<close>

fun Math_round :: "number \<Rightarrow> number" where
  "Math_round (Fin x) = Fin (of_int \<lfloor>x + 1 / 2\<rfloor>)"
| "Math_round n = n"

text \<open>
  An array length or a counter run over an array: below \<open>2 ^ 32\<close>, so held exactly.
\<close>

definition num :: "nat \<Rightarrow> number" where
  "num n = Fin (of_nat n)"

text \<open>\<^verbatim>\<open>===\<close> on two numbers.\<close>

fun num_eq :: "number \<Rightarrow> number \<Rightarrow> bool" where
  "num_eq NaN _ = False"
| "num_eq _ NaN = False"
| "num_eq a b = (a = b)"

section \<open>Strings\<close>

text \<open>
  A string is a list of code units; \<^typ>\<open>char\<close> holds the code units below 256, of which
  these are white space or line terminators.
\<close>

definition is_space :: "char \<Rightarrow> bool" where
  "is_space c = (of_char c \<in> {9, 10, 11, 12, 13, 32, 160 :: nat})"

text \<open>\<^verbatim>\<open>String.prototype.trim\<close>.\<close>

definition trim :: "string \<Rightarrow> string" where
  "trim s = rev (dropWhile is_space (rev (dropWhile is_space s)))"

definition digit_val :: "char \<Rightarrow> int option" where
  "digit_val c =
     (let k = of_char c :: int
      in if 48 \<le> k \<and> k \<le> 57 then Some (k - 48)
         else if 97 \<le> k \<and> k \<le> 102 then Some (k - 87)
         else if 65 \<le> k \<and> k \<le> 70 then Some (k - 55)
         else None)"

definition is_digit :: "int \<Rightarrow> char \<Rightarrow> bool" where
  "is_digit R c = (case digit_val c of None \<Rightarrow> False | Some d \<Rightarrow> d < R)"

text \<open>The value of a run of digits in radix \<open>R\<close>.\<close>

definition digits_val :: "int \<Rightarrow> string \<Rightarrow> int" where
  "digits_val R Z = foldl (\<lambda>a c. a * R + (case digit_val c of None \<Rightarrow> 0 | Some d \<Rightarrow> d)) 0 Z"

text \<open>
  \<^verbatim>\<open>parseInt\<close> with no radix: leading white space, a sign, a \<^verbatim>\<open>0x\<close> prefix, then the longest
  run of digits; no digit gives \<^verbatim>\<open>NaN\<close>. (Beyond twenty decimal digits an engine may
  replace further digits by zeros; the value here is the rounded exact one.)
\<close>

definition parseInt :: "string \<Rightarrow> number" where
  "parseInt s =
     (let S = dropWhile is_space s;
          neg = (S \<noteq> [] \<and> hd S = CHR ''-'');
          S1 = (if S \<noteq> [] \<and> (hd S = CHR ''-'' \<or> hd S = CHR ''+'') then tl S else S);
          hex = (2 \<le> length S1 \<and> hd S1 = CHR ''0'' \<and> (S1 ! 1 = CHR ''x'' \<or> S1 ! 1 = CHR ''X''));
          R = (if hex then 16 else 10);
          S2 = (if hex then drop 2 S1 else S1);
          Z = takeWhile (is_digit R) S2
      in if Z = [] then NaN
         else let v = binary64 (of_int (digits_val R Z))
              in if neg then negate v else v)"

fun decimal :: "nat \<Rightarrow> string" where
  "decimal n = (if n < 10 then [char_of (48 + n)]
                else decimal (n div 10) @ [char_of (48 + n mod 10)])"

declare decimal.simps [simp del]

section \<open>Values\<close>

text \<open>
  Request bodies and the parsed model reply are JSON values. An object keeps its members
  in source order; a later member with the same key overrides an earlier one. A value that
  may be \<^verbatim>\<open>undefined\<close> is a \<open>json option\<close>, \<^verbatim>\<open>undefined\<close> being \<open>None\<close>.
\<close>

datatype json = JNull | JBool bool | JNum number | JStr string
  | JArr "json list" | JObj "(string \<times> json) list"

type_synonym jsval = "json option"

datatype error = TypeError | SyntaxError | ValidationError | GatewayError

fun truthy :: "jsval \<Rightarrow> bool" where
  "truthy None = False"
| "truthy (Some JNull) = False"
| "truthy (Some (JBool b)) = b"
| "truthy (Some (JNum n)) = (n \<noteq> Fin 0 \<and> n \<noteq> NaN)"
| "truthy (Some (JStr s)) = (s \<noteq> [])"
| "truthy (Some (JArr xs)) = True"
| "truthy (Some (JObj kvs)) = True"

text \<open>
  \<^verbatim>\<open>===\<close>. Two arrays or two objects are equal only when they are the same object; the
  operands compared by the handlers come from different places of a parsed body, so they
  never are.
\<close>

fun strict_eq :: "jsval \<Rightarrow> jsval \<Rightarrow> bool" where
  "strict_eq None None = True"
| "strict_eq (Some JNull) (Some JNull) = True"
| "strict_eq (Some (JBool a)) (Some (JBool b)) = (a = b)"
| "strict_eq (Some (JNum a)) (Some (JNum b)) = num_eq a b"
| "strict_eq (Some (JStr a)) (Some (JStr b)) = (a = b)"
| "strict_eq _ _ = False"

text \<open>
  Reading the property \<open>k\<close> of a value, for the keys the handlers read (\<^verbatim>\<open>title\<close>,
  \<^verbatim>\<open>description\<close>, \<^verbatim>\<open>lessons\<close>, \<^verbatim>\<open>content\<close>, \<^verbatim>\<open>questions\<close>, \<^verbatim>\<open>correct\<close>), none of which a
  built-in prototype defines. Reading a property of \<^verbatim>\<open>undefined\<close> or \<^verbatim>\<open>null\<close> throws.
\<close>

fun member :: "json \<Rightarrow> string \<Rightarrow> jsval" where
  "member (JObj kvs) k = map_of (rev kvs) k"
| "member v k = None"

fun get_prop :: "jsval \<Rightarrow> string \<Rightarrow> error + jsval" where
  "get_prop None k = Inl TypeError"
| "get_prop (Some JNull) k = Inl TypeError"
| "get_prop (Some v) k = Inr (member v k)"

text \<open>Reading the element at a position: \<^verbatim>\<open>answers[idx]\<close>.\<close>

fun get_index :: "jsval \<Rightarrow> nat \<Rightarrow> error + jsval" where
  "get_index None i = Inl TypeError"
| "get_index (Some JNull) i = Inl TypeError"
| "get_index (Some (JArr xs)) i = Inr (if i < length xs then Some (xs ! i) else None)"
| "get_index (Some (JStr s)) i = Inr (if i < length s then Some (JStr [s ! i]) else None)"
| "get_index (Some (JObj kvs)) i = Inr (map_of (rev kvs) (decimal i))"
| "get_index (Some v) i = Inr None"

text \<open>
  The own enumerable members of a value in enumeration order: array-index keys ascending,
  then the other keys in insertion order.
\<close>

definition index_key :: "string \<Rightarrow> int option" where
  "index_key k =
     (if k \<noteq> [] \<and> list_all (is_digit 10) k \<and> (hd k \<noteq> CHR ''0'' \<or> length k = 1)
         \<and> digits_val 10 k < 2 ^ 32 - 1
      then Some (digits_val 10 k) else None)"

text \<open>The members of an object literal, each key once, at the place of its first occurrence.\<close>

fun put_member :: "string \<Rightarrow> json \<Rightarrow> (string \<times> json) list \<Rightarrow> (string \<times> json) list" where
  "put_member k v [] = [(k, v)]"
| "put_member k v ((k', v') # es) =
     (if k' = k then (k, v) # es else (k', v') # put_member k v es)"

definition own_members :: "json \<Rightarrow> (string \<times> json) list" where
  "own_members v =
     (case v of
        JArr xs \<Rightarrow> zip (map decimal [0 ..< length xs]) xs
      | JStr s \<Rightarrow> zip (map decimal [0 ..< length s]) (map (\<lambda>c. JStr [c]) s)
      | JObj kvs \<Rightarrow>
          (let es = foldl (\<lambda>es (k, v). put_member k v es) [] kvs
           in sort_key (\<lambda>(k, v). case index_key k of None \<Rightarrow> 0 | Some i \<Rightarrow> i)
                (filter (\<lambda>(k, v). index_key k \<noteq> None) es)
              @ filter (\<lambda>(k, v). index_key k = None) es)
      | _ \<Rightarrow> [])"

text \<open>\<^verbatim>\<open>Object.values\<close>; it throws on \<^verbatim>\<open>undefined\<close> and \<^verbatim>\<open>null\<close>.\<close>

fun Object_values :: "jsval \<Rightarrow> error + json list" where
  "Object_values None = Inl TypeError"
| "Object_values (Some JNull) = Inl TypeError"
| "Object_values (Some v) = Inr (map snd (own_members v))"

section \<open>Documents\<close>

type_synonym object_id = int
type_synonym date = int

record lesson =
  id_l :: number
  title_l :: jsval
  content_l :: jsval
  completed :: bool
  hasQuiz :: bool
  completedAt_l :: "date option"

record learning_path =
  id_p :: object_id
  userId_p :: object_id
  title_p :: jsval
  description :: jsval
  progress :: number
  lessons :: "lesson list"
  createdAt :: date
  updatedAt :: date

record quiz_result =
  id_r :: object_id
  userId_r :: object_id
  pathId_r :: jsval
  lessonId_r :: jsval
  score :: number
  answers_r :: "json list"
  completedAt_r :: date

record llm_request =
  model :: string
  max_tokens :: nat
  content :: string

text \<open>
  The state the handlers act on: the two collections of the document store, and the
  requests sent to the model gateway so far.
\<close>

record world =
  db_paths :: "learning_path list"
  db_results :: "quiz_result list"
  llm_log :: "llm_request list"

definition empty_world :: world where
  "empty_world = \<lparr>db_paths = [], db_results = [], llm_log = []\<rparr>"

text \<open>
  What the handlers take from their runtime and libraries: the JSON reader (\<open>None\<close> when
  it throws), the conversion of a value to a string in a template, whether the store's
  schema accepts a document (its casts and required fields), and the cast of a URL segment
  to an \<^verbatim>\<open>ObjectId\<close> that a query on \<^verbatim>\<open>_id\<close> makes (\<open>None\<close> when it throws a
  \<^verbatim>\<open>CastError\<close>).
\<close>

record env =
  JSON_parse :: "string \<Rightarrow> json option"
  ToString :: "jsval \<Rightarrow> string"
  path_valid :: "learning_path \<Rightarrow> bool"
  result_valid :: "quiz_result \<Rightarrow> bool"
  ObjectId_cast :: "string \<Rightarrow> object_id option"

record quiz =
  pathId_q :: jsval
  lessonId_q :: jsval
  questions_q :: "json list"

datatype body =
    Error string
  | Path learning_path
  | Paths "learning_path list"
  | Quiz quiz
  | Submitted number nat nat object_id
  | Results "quiz_result list"

type_synonym response = "nat \<times> body"

text \<open>A fresh document id for a collection holding the ids \<open>ids\<close>.\<close>

definition new_id :: "object_id list \<Rightarrow> object_id" where
  "new_id ids = fold max ids 0 + 1"

section \<open>The model gateway: extracting the JSON of a reply\<close>

text \<open>
  \<^verbatim>\<open>responseText.match(/\{[\s\S]*\}/)\<close>: the star is greedy, so the match runs from the
  first opening brace to the last closing brace after it.
\<close>

definition json_match :: "string \<Rightarrow> string option" where
  "json_match s =
     (let t = dropWhile (\<lambda>c. c \<noteq> CHR ''{'') s
      in if t = [] then None
         else let m = rev (dropWhile (\<lambda>c. c \<noteq> CHR ''}'') (rev (tl t)))
              in if m = [] then None else Some (CHR ''{'' # m))"

definition nl :: string where
  "nl = [CHR 0x0A]"

definition dq :: string where
  "dq = [CHR 0x22]"

definition path_prompt :: "string \<Rightarrow> string" where
  "path_prompt topic = concat
     [''Create a comprehensive learning path for '', dq, topic, dq,
        ''. Generate exactly 4-6 lessons with:'', nl,
      ''        1. A clear, engaging lesson title'', nl,
      ''        2. A detailed lesson content (2-3 paragraphs explaining key concepts)'', nl,
      ''        3. Each lesson should build on the previous one'', nl,
      ''        '', nl,
      ''        Format your response as JSON with this structure:'', nl,
      ''        {'', nl,
      ''          '', dq, ''title'', dq, '': '', dq, ''Learning Path Title'', dq, '','', nl,
      ''          '', dq, ''description'', dq, '': '', dq, ''Brief description'', dq, '','', nl,
      ''          '', dq, ''lessons'', dq, '': ['', nl,
      ''            {'', nl,
      ''              '', dq, ''title'', dq, '': '', dq, ''Lesson title'', dq, '','', nl,
      ''              '', dq, ''content'', dq, '': '', dq, ''Detailed lesson content'', dq, nl,
      ''            }'', nl,
      ''          ]'', nl,
      ''        }'']"

definition quiz_prompt :: "string \<Rightarrow> string \<Rightarrow> string" where
  "quiz_prompt lessonTitle lessonContent = concat
     [''Based on this lesson:'', nl,
      ''        Title: '', lessonTitle, nl,
      ''        Content: '', lessonContent, nl,
      ''        '', nl,
      ''        Generate exactly 5 multiple-choice questions that test understanding of the key concepts.'', nl,
      ''        '', nl,
      ''        Format your response as JSON:'', nl,
      ''        {'', nl,
      ''          '', dq, ''questions'', dq, '': ['', nl,
      ''            {'', nl,
      ''              '', dq, ''question'', dq, '': '', dq, ''Question text'', dq, '','', nl,
      ''              '', dq, ''options'', dq, '': ['', dq, ''Option A'', dq, '', '', dq, ''Option B'', dq,
        '', '', dq, ''Option C'', dq, '', '', dq, ''Option D'', dq, ''],'', nl,
      ''              '', dq, ''correct'', dq, '': 0'', nl,
      ''            }'', nl,
      ''          ]'', nl,
      ''        }'', nl,
      ''        '', nl,
      ''        The '', dq, ''correct'', dq, '' field should be the index (0-3) of the correct answer.'']"

section \<open>Learning path routes\<close>

text \<open>
  The handlers below run behind \<^verbatim>\<open>isAuthenticated\<close>; \<open>user\<close> is \<^verbatim>\<open>req.user._id\<close>. Each
  takes the state and returns the response with the new state. \<open>now\<close> is the clock of
  the request and \<open>reply\<close> the text the model gateway answers with (\<open>None\<close> when the call
  throws).
\<close>

text \<open>
  \<^verbatim>\<open>pathData.lessons.map((lesson, idx) => ({id: idx + 1, ...}))\<close>, \<open>idx\<close> being the position
  of the first element of the list.
\<close>

fun map_lessons :: "nat \<Rightarrow> json list \<Rightarrow> error + lesson list" where
  "map_lessons idx [] = Inr []"
| "map_lessons idx (lesson # rest) =
     (case get_prop (Some lesson) ''title'' of
        Inl e \<Rightarrow> Inl e
      | Inr t \<Rightarrow>
          (case get_prop (Some lesson) ''content'' of
             Inl e \<Rightarrow> Inl e
           | Inr c \<Rightarrow>
               (case map_lessons (Suc idx) rest of
                  Inl e \<Rightarrow> Inl e
                | Inr ls \<Rightarrow>
                    Inr (\<lparr>id_l = num (idx + 1), title_l = t, content_l = c,
                          completed = False, hasQuiz = True, completedAt_l = None\<rparr> # ls))))"

text \<open>
  \<^verbatim>\<open>LearningPath.create\<close>: the schema validates, then the document is inserted under a
  fresh \<^verbatim>\<open>_id\<close>.
\<close>

definition LearningPath_create ::
  "env \<Rightarrow> learning_path \<Rightarrow> world \<Rightarrow> error + (learning_path \<times> world)" where
  "LearningPath_create env doc w =
     (let d = doc\<lparr>id_p := new_id (map id_p (db_paths w))\<rparr>
      in if path_valid env d then Inr (d, w\<lparr>db_paths := db_paths w @ [d]\<rparr>)
         else Inl ValidationError)"

definition generate_failed :: body where
  "generate_failed = Error ''Failed to generate learning path''"

text \<open>
  The handler from the model's answer on: the text is matched and parsed, the lessons are
  numbered and the path is stored. Every exception ends in the handler's \<^verbatim>\<open>catch\<close>.
\<close>

definition path_from_reply ::
  "env \<Rightarrow> object_id \<Rightarrow> string option \<Rightarrow> date \<Rightarrow> world \<Rightarrow> response \<times> world" where
  "path_from_reply env user reply now w =
     (case reply of
        None \<Rightarrow> ((500, generate_failed), w)
      | Some responseText \<Rightarrow>
          (case json_match responseText of
             None \<Rightarrow> ((500, generate_failed), w)
           | Some jsonMatch \<Rightarrow>
               (case JSON_parse env jsonMatch of
                  None \<Rightarrow> ((500, generate_failed), w)
                | Some pathData \<Rightarrow>
                    if \<not> truthy (Some pathData) then ((500, generate_failed), w)
                    else
                      (case member pathData ''lessons'' of
                         Some (JArr ls) \<Rightarrow>
                           (case map_lessons 0 ls of
                              Inl e \<Rightarrow> ((500, generate_failed), w)
                            | Inr lessons' \<Rightarrow>
                                (case LearningPath_create env
                                        \<lparr>id_p = 0, userId_p = user,
                                         title_p = member pathData ''title'',
                                         description = member pathData ''description'',
                                         progress = Fin 0, lessons = lessons',
                                         createdAt = now, updatedAt = now\<rparr> w of
                                   Inl e \<Rightarrow> ((500, generate_failed), w)
                                 | Inr (learningPath, w') \<Rightarrow> ((200, Path learningPath), w')))
                       | _ \<Rightarrow> ((500, generate_failed), w)))))"

text \<open>
  \<^verbatim>\<open>POST /api/learning-paths/generate\<close>. The check is
  \<^verbatim>\<open>!topic || topic.trim().length === 0\<close>; a truthy topic that is no string has no
  \<^verbatim>\<open>trim\<close>, and the call throws.
\<close>

definition generate_path ::
  "env \<Rightarrow> object_id \<Rightarrow> jsval \<Rightarrow> string option \<Rightarrow> date \<Rightarrow> world \<Rightarrow> response \<times> world" where
  "generate_path env user topic reply now w =
     (if \<not> truthy topic then ((400, Error ''Topic is required''), w)
      else
        (case topic of
           Some (JStr s) \<Rightarrow>
             if length (trim s) = 0 then ((400, Error ''Topic is required''), w)
             else path_from_reply env user reply now
                    (w\<lparr>llm_log := llm_log w @
                         [\<lparr>model = ''claude-sonnet-4-20250514'', max_tokens = 2000,
                           content = path_prompt s\<rparr>]\<rparr>)
         | _ \<Rightarrow> ((500, generate_failed), w)))"

text \<open>\<^verbatim>\<open>LearningPath.find({userId}).sort({createdAt: -1})\<close>.\<close>

definition list_paths :: "object_id \<Rightarrow> world \<Rightarrow> response" where
  "list_paths user w =
     (200, Paths (sort_key (\<lambda>p. - createdAt p) (filter (\<lambda>p. userId_p p = user) (db_paths w))))"

text \<open>
  \<^verbatim>\<open>LearningPath.findOne({_id, userId})\<close> on the documents, for an \<^verbatim>\<open>_id\<close> that has been
  cast.
\<close>

definition findOne :: "object_id \<Rightarrow> object_id \<Rightarrow> learning_path list \<Rightarrow> learning_path option" where
  "findOne pid user ps = find (\<lambda>p. id_p p = pid \<and> userId_p p = user) ps"

text \<open>
  \<^verbatim>\<open>GET /api/learning-paths/:id\<close>. \<open>id\<close> is the URL segment \<^verbatim>\<open>req.params.id\<close>; when the
  query cannot cast it, \<^verbatim>\<open>findOne\<close> throws and the handler's \<^verbatim>\<open>catch\<close> answers 500.
\<close>

definition get_path :: "env \<Rightarrow> object_id \<Rightarrow> string \<Rightarrow> world \<Rightarrow> response" where
  "get_path env user id' w =
     (case ObjectId_cast env id' of
        None \<Rightarrow> (500, Error ''Failed to fetch learning path'')
      | Some pid \<Rightarrow>
          (case findOne pid user (db_paths w) of
             None \<Rightarrow> (404, Error ''Learning path not found'')
           | Some path \<Rightarrow> (200, Path path)))"

text \<open>Changing the first element of a list that satisfies \<open>P\<close>.\<close>

fun update_first :: "('a \<Rightarrow> bool) \<Rightarrow> ('a \<Rightarrow> 'a) \<Rightarrow> 'a list \<Rightarrow> 'a list" where
  "update_first P f [] = []"
| "update_first P f (x # xs) = (if P x then f x # xs else x # update_first P f xs)"

text \<open>\<^verbatim>\<open>path.save()\<close>: the stored document with this \<^verbatim>\<open>_id\<close> is replaced.\<close>

definition save :: "learning_path \<Rightarrow> world \<Rightarrow> world" where
  "save path w = w\<lparr>db_paths := update_first (\<lambda>d. id_p d = id_p path) (\<lambda>d. path) (db_paths w)\<rparr>"

text \<open>
  \<^verbatim>\<open>PATCH /api/learning-paths/:id/lessons/:lessonId/complete\<close>, \<open>id\<close> and \<open>lessonId\<close> being
  the two URL segments. A path id that cannot be cast ends in the handler's \<^verbatim>\<open>catch\<close>.
\<close>

definition complete_lesson ::
  "env \<Rightarrow> object_id \<Rightarrow> string \<Rightarrow> string \<Rightarrow> date \<Rightarrow> world \<Rightarrow> response \<times> world" where
  "complete_lesson env user id' lessonId now w =
     (case ObjectId_cast env id' of
        None \<Rightarrow> ((500, Error ''Failed to update lesson''), w)
      | Some pid \<Rightarrow>
          (case findOne pid user (db_paths w) of
             None \<Rightarrow> ((404, Error ''Learning path not found''), w)
           | Some path \<Rightarrow>
               (case find (\<lambda>l. num_eq (id_l l) (parseInt lessonId)) (lessons path) of
                  None \<Rightarrow> ((404, Error ''Lesson not found''), w)
                | Some lesson \<Rightarrow>
                    (let ls = update_first (\<lambda>l. num_eq (id_l l) (parseInt lessonId))
                                (\<lambda>l. l\<lparr>completed := True, completedAt_l := Some now\<rparr>)
                                (lessons path);
                         completedCount = length (filter completed ls);
                         path' = path\<lparr>lessons := ls,
                                      progress := js_mul (js_div (num completedCount)
                                                            (num (length ls))) (Fin 100),
                                      updatedAt := now\<rparr>
                     in ((200, Path path'), save path' w)))))"

section \<open>Quiz routes\<close>

definition quiz_failed :: body where
  "quiz_failed = Error ''Failed to generate quiz''"

text \<open>\<^verbatim>\<open>quizData.questions.map((q, idx) => ({id: idx + 1, ...q}))\<close>.\<close>

fun add_ids :: "nat \<Rightarrow> json list \<Rightarrow> json list" where
  "add_ids idx [] = []"
| "add_ids idx (q # qs) = JObj ((''id'', JNum (num (idx + 1))) # own_members q) # add_ids (Suc idx) qs"

definition generate_quiz ::
  "env \<Rightarrow> object_id \<Rightarrow> jsval \<Rightarrow> jsval \<Rightarrow> jsval \<Rightarrow> jsval \<Rightarrow> string option \<Rightarrow> world
     \<Rightarrow> response \<times> world" where
  "generate_quiz env user pathId lessonId lessonTitle lessonContent reply w =
     (if \<not> truthy pathId \<or> \<not> truthy lessonId \<or> \<not> truthy lessonTitle \<or> \<not> truthy lessonContent
      then ((400, Error ''Missing required fields''), w)
      else
        (let w1 = w\<lparr>llm_log := llm_log w @
                     [\<lparr>model = ''claude-sonnet-4-20250514'', max_tokens = 1500,
                       content = quiz_prompt (ToString env lessonTitle)
                                   (ToString env lessonContent)\<rparr>]\<rparr>
         in case reply of
              None \<Rightarrow> ((500, quiz_failed), w1)
            | Some responseText \<Rightarrow>
                (case json_match responseText of
                   None \<Rightarrow> ((500, quiz_failed), w1)
                 | Some jsonMatch \<Rightarrow>
                     (case JSON_parse env jsonMatch of
                        None \<Rightarrow> ((500, quiz_failed), w1)
                      | Some quizData \<Rightarrow>
                          if \<not> truthy (Some quizData) then ((500, quiz_failed), w1)
                          else
                          if \<not> truthy (member quizData ''questions'') then ((500, quiz_failed), w1)
                          else
                            (case member quizData ''questions'' of
                               Some (JArr qs) \<Rightarrow>
                                 ((200, Quiz \<lparr>pathId_q = pathId, lessonId_q = lessonId,
                                              questions_q = add_ids 0 qs\<rparr>), w1)
                             | _ \<Rightarrow> ((500, quiz_failed), w1))))))"

text \<open>
  The loop \<^verbatim>\<open>questions.forEach((q, idx) => { if (answers[idx] === q.correct) correctCount++ })\<close>
  from position \<open>idx\<close> on, \<open>correctCount\<close> being the count so far.
\<close>

fun forEach_count :: "jsval \<Rightarrow> json list \<Rightarrow> nat \<Rightarrow> nat \<Rightarrow> error + nat" where
  "forEach_count answers [] idx correctCount = Inr correctCount"
| "forEach_count answers (q # qs) idx correctCount =
     (case get_index answers idx of
        Inl e \<Rightarrow> Inl e
      | Inr a \<Rightarrow>
          (case get_prop (Some q) ''correct'' of
             Inl e \<Rightarrow> Inl e
           | Inr c \<Rightarrow>
               forEach_count answers qs (Suc idx)
                 (if strict_eq a c then correctCount + 1 else correctCount)))"

text \<open>\<^verbatim>\<open>Math.round((correctCount / questions.length) * 100)\<close>.\<close>

definition percent :: "nat \<Rightarrow> nat \<Rightarrow> number" where
  "percent correctCount n = Math_round (js_mul (js_div (num correctCount) (num n)) (Fin 100))"

definition submit_failed :: body where
  "submit_failed = Error ''Failed to submit quiz''"

text \<open>\<^verbatim>\<open>QuizResult.create\<close>.\<close>

definition QuizResult_create ::
  "env \<Rightarrow> quiz_result \<Rightarrow> world \<Rightarrow> error + (quiz_result \<times> world)" where
  "QuizResult_create env doc w =
     (let d = doc\<lparr>id_r := new_id (map id_r (db_results w))\<rparr>
      in if result_valid env d then Inr (d, w\<lparr>db_results := db_results w @ [d]\<rparr>)
         else Inl ValidationError)"

definition submit_quiz ::
  "env \<Rightarrow> object_id \<Rightarrow> jsval \<Rightarrow> jsval \<Rightarrow> jsval \<Rightarrow> jsval \<Rightarrow> date \<Rightarrow> world \<Rightarrow> response \<times> world" where
  "submit_quiz env user pathId lessonId answers questions now w =
     (if \<not> truthy pathId \<or> \<not> truthy lessonId \<or> \<not> truthy answers \<or> \<not> truthy questions
      then ((400, Error ''Missing required fields''), w)
      else
        (case questions of
           Some (JArr qs) \<Rightarrow>
             (case forEach_count answers qs 0 0 of
                Inl e \<Rightarrow> ((500, submit_failed), w)
              | Inr correctCount \<Rightarrow>
                  (let score' = percent correctCount (length qs)
                   in case Object_values answers of
                        Inl e \<Rightarrow> ((500, submit_failed), w)
                      | Inr vs \<Rightarrow>
                          (case QuizResult_create env
                                  \<lparr>id_r = 0, userId_r = user, pathId_r = pathId,
                                   lessonId_r = lessonId, score = score', answers_r = vs,
                                   completedAt_r = now\<rparr> w of
                             Inl e \<Rightarrow> ((500, submit_failed), w)
                           | Inr (result, w') \<Rightarrow>
                               ((200, Submitted score' correctCount (length qs) (id_r result)), w'))))
         | _ \<Rightarrow> ((500, submit_failed), w)))"

text \<open>\<^verbatim>\<open>QuizResult.find({userId}).sort({completedAt: -1}).limit(20)\<close>.\<close>

definition quiz_history :: "object_id \<Rightarrow> world \<Rightarrow> response" where
  "quiz_history user w =
     (200, Results (take 20 (sort_key (\<lambda>r. - completedAt_r r)
                               (filter (\<lambda>r. userId_r r = user) (db_results w)))))"

section \<open>The client's score\<close>

text \<open>
  \<^verbatim>\<open>quiz.questions.filter((q, idx) => quizAnswers[idx] === q.correct)\<close> from position
  \<open>idx\<close> on.
\<close>

fun filter_correct :: "jsval \<Rightarrow> json list \<Rightarrow> nat \<Rightarrow> error + json list" where
  "filter_correct quizAnswers [] idx = Inr []"
| "filter_correct quizAnswers (q # qs) idx =
     (case get_index quizAnswers idx of
        Inl e \<Rightarrow> Inl e
      | Inr a \<Rightarrow>
          (case get_prop (Some q) ''correct'' of
             Inl e \<Rightarrow> Inl e
           | Inr c \<Rightarrow>
               (case filter_correct quizAnswers qs (Suc idx) of
                  Inl e \<Rightarrow> Inl e
                | Inr r \<Rightarrow> Inr (if strict_eq a c then q # r else r))))"

definition calculateScore :: "quiz option \<Rightarrow> jsval \<Rightarrow> error + number" where
  "calculateScore quiz quizAnswers =
     (case quiz of
        None \<Rightarrow> Inr (Fin 0)
      | Some qz \<Rightarrow>
          (case filter_correct quizAnswers (questions_q qz) 0 of
             Inl e \<Rightarrow> Inl e
           | Inr r \<Rightarrow>
               Inr (Math_round (js_mul (js_div (num (length r)) (num (length (questions_q qz))))
                                   (Fin 100)))))"

section \<open>The routes together\<close>

text \<open>
  A request to one of the routes above, with what the handler reads from it. The requests
  pass \<^verbatim>\<open>isAuthenticated\<close> first: without a session the answer is 401.
\<close>

datatype request =
    GeneratePath jsval "string option"
  | ListPaths
  | GetPath string
  | CompleteLesson string string
  | GenerateQuiz jsval jsval jsval jsval "string option"
  | SubmitQuiz jsval jsval jsval jsval
  | QuizHistory

definition handle ::
  "env \<Rightarrow> object_id option \<Rightarrow> request \<Rightarrow> date \<Rightarrow> world \<Rightarrow> response \<times> world" where
  "handle env session req now w =
     (case session of
        None \<Rightarrow> ((401, Error ''Unauthorized. Please login.''), w)
      | Some user \<Rightarrow>
          (case req of
             GeneratePath topic reply \<Rightarrow> generate_path env user topic reply now w
           | ListPaths \<Rightarrow> (list_paths user w, w)
           | GetPath id' \<Rightarrow> (get_path env user id' w, w)
           | CompleteLesson id' lessonId \<Rightarrow> complete_lesson env user id' lessonId now w
           | GenerateQuiz pathId lessonId lessonTitle lessonContent reply \<Rightarrow>
               generate_quiz env user pathId lessonId lessonTitle lessonContent reply w
           | SubmitQuiz pathId lessonId answers questions \<Rightarrow>
               submit_quiz env user pathId lessonId answers questions now w
           | QuizHistory \<Rightarrow> (quiz_history user w, w)))"

text \<open>The states the server reaches from the empty store by answering requests.\<close>

inductive reachable :: "env \<Rightarrow> world \<Rightarrow> bool" for env :: env where
  reachable_empty: "reachable env empty_world"
| reachable_handle:
    "reachable env w \<Longrightarrow> handle env session req now w = (res, w') \<Longrightarrow> reachable env w'"

text \<open>
  The progress the completed flags of a list of lessons determine: the share of completed
  lessons times 100 in binary64 arithmetic, and 0 when none is completed.
\<close>

definition progress_of :: "lesson list \<Rightarrow> number" where
  "progress_of ls =
     (if filter completed ls = [] then Fin 0
      else js_mul (js_div (num (length (filter completed ls))) (num (length ls))) (Fin 100))"

section \<open>A JSON reader for running the handlers\<close>

text \<open>
  The handlers take \<^verbatim>\<open>JSON.parse\<close> as a parameter. To run them on a concrete reply, this is a
  reader for the JSON grammar: white space, objects, arrays, strings with their escapes
  (a \<^verbatim>\<open>\u\<close> escape of a code unit below 256), numbers and the three literals. The first
  argument of \<open>read_value\<close> bounds the number of nested calls; the length of the text is
  enough, as every call consumes a character.
\<close>

definition json_ws :: "char \<Rightarrow> bool" where
  "json_ws c = (of_char c \<in> {9, 10, 13, 32 :: nat})"

definition unescape :: "char \<Rightarrow> char option" where
  "unescape e =
     (if e = CHR 0x22 \<or> e = CHR 0x5C \<or> e = CHR ''/'' then Some e
      else if e = CHR ''b'' then Some (CHR 0x08)
      else if e = CHR ''f'' then Some (CHR 0x0C)
      else if e = CHR ''n'' then Some (CHR 0x0A)
      else if e = CHR ''r'' then Some (CHR 0x0D)
      else if e = CHR ''t'' then Some (CHR 0x09)
      else None)"

fun read_string :: "string \<Rightarrow> string \<Rightarrow> (string \<times> string) option" where
  "read_string acc [] = None"
| "read_string acc (c # cs) =
     (if c = CHR 0x22 then Some (rev acc, cs)
      else if c = CHR 0x5C then
        (case cs of
           [] \<Rightarrow> None
         | e # r \<Rightarrow>
             if e = CHR ''u'' then
               (case r of
                  a # b # c' # d # r' \<Rightarrow>
                    if list_all (is_digit 16) [a, b, c', d] \<and> digits_val 16 [a, b, c', d] < 256
                    then read_string (char_of (nat (digits_val 16 [a, b, c', d])) # acc) r'
                    else None
                | _ \<Rightarrow> None)
             else (case unescape e of None \<Rightarrow> None | Some ch \<Rightarrow> read_string (ch # acc) r))
      else if (of_char c :: nat) < 32 then None
      else read_string (c # acc) cs)"

definition read_number :: "string \<Rightarrow> (json \<times> string) option" where
  "read_number s =
     (let neg = (s \<noteq> [] \<and> hd s = CHR ''-'');
          s1 = (if neg then tl s else s);
          ip = takeWhile (is_digit 10) s1;
          s2 = dropWhile (is_digit 10) s1;
          has_frac = (s2 \<noteq> [] \<and> hd s2 = CHR ''.'');
          fp = (if has_frac then takeWhile (is_digit 10) (tl s2) else []);
          s3 = (if has_frac then dropWhile (is_digit 10) (tl s2) else s2);
          has_exp = (s3 \<noteq> [] \<and> (hd s3 = CHR ''e'' \<or> hd s3 = CHR ''E''));
          s4 = (if has_exp then tl s3 else s3);
          eneg = (has_exp \<and> s4 \<noteq> [] \<and> hd s4 = CHR ''-'');
          s5 = (if has_exp \<and> s4 \<noteq> [] \<and> (hd s4 = CHR ''-'' \<or> hd s4 = CHR ''+'') then tl s4 else s4);
          ep = (if has_exp then takeWhile (is_digit 10) s5 else []);
          s6 = (if has_exp then dropWhile (is_digit 10) s5 else s3);
          mant = (of_int (digits_val 10 (ip @ fp)) :: rat) / 10 ^ length fp;
          v = (if eneg then mant / 10 ^ nat (digits_val 10 ep) else mant * 10 ^ nat (digits_val 10 ep))
      in if ip = [] \<or> (hd ip = CHR ''0'' \<and> length ip \<noteq> 1) \<or> (has_frac \<and> fp = [])
            \<or> (has_exp \<and> ep = [])
         then None
         else Some (JNum (binary64 (if neg then - v else v)), s6))"

fun read_value :: "nat \<Rightarrow> string \<Rightarrow> (json \<times> string) option"
  and read_elems :: "nat \<Rightarrow> json list \<Rightarrow> string \<Rightarrow> (json \<times> string) option"
  and read_members :: "nat \<Rightarrow> (string \<times> json) list \<Rightarrow> string \<Rightarrow> (json \<times> string) option" where
  "read_value 0 s = None"
| "read_value (Suc n) s =
     (case dropWhile json_ws s of
        [] \<Rightarrow> None
      | c # r \<Rightarrow>
          if c = CHR ''{'' then
            (case dropWhile json_ws r of
               [] \<Rightarrow> None
             | c' # r' \<Rightarrow> if c' = CHR ''}'' then Some (JObj [], r') else read_members n [] r)
          else if c = CHR ''['' then
            (case dropWhile json_ws r of
               [] \<Rightarrow> None
             | c' # r' \<Rightarrow> if c' = CHR '']'' then Some (JArr [], r') else read_elems n [] r)
          else if c = CHR 0x22 then
            (case read_string [] r of None \<Rightarrow> None | Some (str, r') \<Rightarrow> Some (JStr str, r'))
          else if take 4 (c # r) = ''true'' then Some (JBool True, drop 4 (c # r))
          else if take 5 (c # r) = ''false'' then Some (JBool False, drop 5 (c # r))
          else if take 4 (c # r) = ''null'' then Some (JNull, drop 4 (c # r))
          else read_number (c # r))"
| "read_elems 0 acc s = None"
| "read_elems (Suc n) acc s =
     (case read_value n s of
        None \<Rightarrow> None
      | Some (v, r) \<Rightarrow>
          (case dropWhile json_ws r of
             [] \<Rightarrow> None
           | c # r' \<Rightarrow>
               if c = CHR '','' then read_elems n (v # acc) r'
               else if c = CHR '']'' then Some (JArr (rev (v # acc)), r')
               else None))"
| "read_members 0 acc s = None"
| "read_members (Suc n) acc s =
     (case dropWhile json_ws s of
        [] \<Rightarrow> None
      | c # r \<Rightarrow>
          if c \<noteq> CHR 0x22 then None
          else
            (case read_string [] r of
               None \<Rightarrow> None
             | Some (k, r1) \<Rightarrow>
                 (case dropWhile json_ws r1 of
                    [] \<Rightarrow> None
                  | c1 # r2 \<Rightarrow>
                      if c1 \<noteq> CHR '':'' then None
                      else
                        (case read_value n r2 of
                           None \<Rightarrow> None
                         | Some (v, r3) \<Rightarrow>
                             (case dropWhile json_ws r3 of
                                [] \<Rightarrow> None
                              | c3 # r4 \<Rightarrow>
                                  if c3 = CHR '','' then read_members n ((k, v) # acc) r4
                                  else if c3 = CHR ''}'' then Some (JObj (rev ((k, v) # acc)), r4)
                                  else None)))))"

definition JSON_read :: "string \<Rightarrow> json option" where
  "JSON_read s =
     (case read_value (Suc (length s)) s of
        None \<Rightarrow> None
      | Some (v, r) \<Rightarrow> if dropWhile json_ws r = [] then Some v else None)"

text \<open>The \<^verbatim>\<open>ObjectId\<close> written as 24 hexadecimal digits; any other segment does not cast.\<close>

definition ObjectId_read :: "string \<Rightarrow> object_id option" where
  "ObjectId_read s =
     (if length s = 24 \<and> list_all (is_digit 16) s then Some (digits_val 16 s) else None)"

text \<open>
  An environment for running the handlers: the reader above, strings converted to
  themselves, the cast of 24 hexadecimal digits, and a store that accepts every path and
  accepts a quiz result when its path id casts and its score is not \<^verbatim>\<open>NaN\<close>.
\<close>

definition run_env :: env where
  "run_env = \<lparr>JSON_parse = JSON_read,
               ToString = (\<lambda>v. case v of Some (JStr s) \<Rightarrow> s | _ \<Rightarrow> ''[object Object]''),
               path_valid = (\<lambda>d. True),
               result_valid =
                 (\<lambda>d. (case pathId_r d of
                         Some (JStr s) \<Rightarrow> ObjectId_read s \<noteq> None
                       | _ \<Rightarrow> False)
                      \<and> score d \<noteq> NaN),
               ObjectId_cast = ObjectId_read\<rparr>"

section \<open>Derived quantities\<close>

text \<open>Every stored path has the progress its lessons determine.\<close>

definition progress_derivable :: "world \<Rightarrow> bool" where
  "progress_derivable w = list_all (\<lambda>p. progress p = progress_of (lessons p)) (db_paths w)"

text \<open>
  Position \<open>idx\<close> counts as correct for question \<open>q\<close>: the answer there is strictly equal
  to the question's \<^verbatim>\<open>correct\<close>.
\<close>

definition hit :: "jsval \<Rightarrow> json \<Rightarrow> nat \<Rightarrow> bool" where
  "hit answers q idx =
     (case get_index answers idx of
        Inl e \<Rightarrow> False
      | Inr a \<Rightarrow> (case get_prop (Some q) ''correct'' of Inl e \<Rightarrow> False | Inr c \<Rightarrow> strict_eq a c))"


section \<open>Example data\<close>

text \<open>
  A store holding one path of five lessons, owned by user 7, with the first two lessons
  completed.
\<close>

definition demo_lesson :: "nat \<Rightarrow> bool \<Rightarrow> lesson" where
  "demo_lesson k done =
     \<lparr>id_l = num k, title_l = Some (JStr ''Lesson''), content_l = Some (JStr ''Text''),
      completed = done, hasQuiz = True, completedAt_l = None\<rparr>"

definition demo_path :: learning_path where
  "demo_path =
     \<lparr>id_p = 1, userId_p = 7, title_p = Some (JStr ''Python basics''), description = None,
      progress = Fin 40,
      lessons = [demo_lesson 1 True, demo_lesson 2 True, demo_lesson 3 False,
                 demo_lesson 4 False, demo_lesson 5 False],
      createdAt = 0, updatedAt = 0\<rparr>"

definition demo_world :: world where
  "demo_world = \<lparr>db_paths = [demo_path], db_results = [], llm_log = []\<rparr>"

text \<open>Thirty quiz results, every fifth one of user 8 and the others of user 7.\<close>

definition demo_result :: "object_id \<Rightarrow> object_id \<Rightarrow> date \<Rightarrow> quiz_result" where
  "demo_result rid user t =
     \<lparr>id_r = rid, userId_r = user, pathId_r = Some (JStr ''0123456789abcdef01234567''), lessonId_r = Some (JNum (Fin 1)),
      score = Fin 80, answers_r = [], completedAt_r = t\<rparr>"

definition demo_history :: world where
  "demo_history =
     \<lparr>db_paths = [],
      db_results = map (\<lambda>k. demo_result (int k) (if k mod 5 = 0 then 8 else 7) (int k)) [1 ..< 31],
      llm_log = []\<rparr>"

text \<open>A reply of the model holding a path of five lessons, and the document made of it.\<close>

definition demo_reply :: string where
  "demo_reply = concat
     [''Here is your path: {'', dq, ''title'', dq, '': '', dq, ''Python basics'', dq, '', '',
      dq, ''lessons'', dq, '': ['',
      ''{'', dq, ''title'', dq, '': '', dq, ''L'', dq, '', '', dq, ''content'', dq, '': '', dq, ''C'', dq, ''}, '',
      ''{'', dq, ''title'', dq, '': '', dq, ''L'', dq, '', '', dq, ''content'', dq, '': '', dq, ''C'', dq, ''}, '',
      ''{'', dq, ''title'', dq, '': '', dq, ''L'', dq, '', '', dq, ''content'', dq, '': '', dq, ''C'', dq, ''}, '',
      ''{'', dq, ''title'', dq, '': '', dq, ''L'', dq, '', '', dq, ''content'', dq, '': '', dq, ''C'', dq, ''}, '',
      ''{'', dq, ''title'', dq, '': '', dq, ''L'', dq, '', '', dq, ''content'', dq, '': '', dq, ''C'', dq, ''}'',
      '']} Enjoy.'']"

definition demo_generated :: learning_path where
  "demo_generated =
     \<lparr>id_p = 1, userId_p = 7, title_p = Some (JStr ''Python basics''), description = None,
      progress = Fin 0,
      lessons = map (\<lambda>k. \<lparr>id_l = num k, title_l = Some (JStr ''L''), content_l = Some (JStr ''C''),
                             completed = False, hasQuiz = True, completedAt_l = None\<rparr>)
                    [1, 2, 3, 4, 5],
      createdAt = 1000, updatedAt = 1000\<rparr>"

text \<open>
  A quiz of forty questions with the first 23 answered correctly, and a quiz of five
  questions with the first three answered correctly, the fourth wrongly and the fifth not
  at all.
\<close>

definition demo_questions :: "json list" where
  "demo_questions = replicate 40 (JObj [(''question'', JStr ''Q''), (''correct'', JNum (Fin 0))])"

definition demo_answers :: json where
  "demo_answers = JObj (map (\<lambda>i. (decimal i, JNum (Fin (if i < 23 then 0 else 1)))) [0 ..< 40])"

definition demo_questions5 :: "json list" where
  "demo_questions5 = map (\<lambda>k. JObj [(''question'', JStr ''Q''), (''correct'', JNum (Fin k))])
                          [0, 1, 2, 3, 0]"

definition demo_answers5 :: json where
  "demo_answers5 = JObj [(''0'', JNum (Fin 0)), (''1'', JNum (Fin 1)), (''2'', JNum (Fin 2)),
                         (''3'', JNum (Fin 0))]"

text \<open>The store after user 7 has created the path of \<open>demo_reply\<close> and completed its lesson 3.\<close>

definition demo_run :: world where
  "demo_run =
     snd (handle run_env (Some 7) (CompleteLesson ''000000000000000000000001'' ''3'') 2000
            (snd (handle run_env (Some 7)
                    (GeneratePath (Some (JStr ''Python basics'')) (Some demo_reply)) 1000
                    empty_world)))"

section \<open>Rounding to binary64: the error of one operation\<close>

lemma blen_pos: "0 < n \<Longrightarrow> 1 \<le> blen n"
proof (induction n rule: blen.induct)
  case (1 n)
  have "0 \<le> blen (n div 2)"
  proof (cases "0 < n div 2")
    case True
    with 1 show ?thesis by simp
  next
    case False
    then show ?thesis by (simp add: blen.simps)
  qed
  with 1(2) show ?case by (subst blen.simps) simp
qed

lemma blen_bounds:
  "0 < n \<Longrightarrow> 2 ^ nat (blen n - 1) \<le> n \<and> n < 2 ^ nat (blen n)"
proof (induction n rule: blen.induct)
  case (1 n)
  show ?case
  proof (cases "n div 2 = 0")
    case True
    with 1(2) have "n = 1" by presburger
    then show ?thesis by (simp add: blen.simps)
  next
    case False
    with 1(2) have pos: "0 < n div 2" by presburger
    with 1 have IH: "2 ^ nat (blen (n div 2) - 1) \<le> n div 2" "n div 2 < 2 ^ nat (blen (n div 2))"
      by simp_all
    have b1: "1 \<le> blen (n div 2)" using pos by (rule blen_pos)
    have eq: "blen n = 1 + blen (n div 2)" using 1(2) by (subst blen.simps) simp
    have "nat (blen (n div 2)) = Suc (nat (blen (n div 2) - 1))" using b1 by simp
    then have p: "(2::int) ^ nat (blen (n div 2)) = 2 * 2 ^ nat (blen (n div 2) - 1)"
      by simp
    have q: "nat (blen n) = Suc (nat (blen (n div 2)))" using eq b1 by simp
    have "(2::int) ^ nat (blen n - 1) = 2 ^ nat (blen (n div 2))" using eq by simp
    also have "\<dots> \<le> 2 * (n div 2)" using p IH(1) by simp
    also have "\<dots> \<le> n" by presburger
    finally have lo: "2 ^ nat (blen n - 1) \<le> n" .
    have "n div 2 + 1 \<le> 2 ^ nat (blen (n div 2))" using IH(2) by simp
    then have "2 * (n div 2) + 2 \<le> 2 ^ nat (blen n)" using q by simp
    moreover have "n < 2 * (n div 2) + 2" by presburger
    ultimately have hi: "n < 2 ^ nat (blen n)" by linarith
    from lo hi show ?thesis by simp
  qed
qed

lemma round_even_error: "\<bar>of_int (round_even y) - y\<bar> \<le> 1 / 2"
proof -
  have "of_int \<lfloor>y\<rfloor> \<le> y" "y < of_int \<lfloor>y\<rfloor> + 1" by linarith+
  then show ?thesis
    by (auto simp: round_even_def Let_def)
qed

lemma round_even_nonneg: "0 \<le> y \<Longrightarrow> 0 \<le> round_even y"
  by (auto simp: round_even_def Let_def)

lemma powi_nonneg_eq: "0 \<le> k \<Longrightarrow> (2::rat) powi k = 2 ^ nat k"
  by (simp add: power_int_def)

lemma powi_neg_eq: "0 \<le> k \<Longrightarrow> (2::rat) powi (- k) = 1 / 2 ^ nat k"
  by (cases "k = 0") (simp_all add: power_int_def field_simps)

lemma expo_bounds:
  assumes "0 < x"
  shows "2 powi expo x \<le> x \<and> x < 2 powi (expo x + 1)"
proof (cases "1 \<le> x")
  case True
  define n where "n = \<lfloor>x\<rfloor>"
  have n1: "1 \<le> n" using True by (simp add: n_def)
  then have b: "2 ^ nat (blen n - 1) \<le> n" "n < 2 ^ nat (blen n)" and bp: "1 \<le> blen n"
    using blen_bounds[of n] blen_pos[of n] by simp_all
  have e: "expo x = blen n - 1" using True by (simp add: expo_def n_def)
  have "(2::rat) powi (blen n - 1) = of_int (2 ^ nat (blen n - 1))"
    using bp by (simp add: powi_nonneg_eq)
  also have "\<dots> \<le> of_int n" using b(1) by (simp only: of_int_le_iff)
  also have "\<dots> \<le> x" by (simp add: n_def)
  finally have lo: "2 powi expo x \<le> x" by (simp add: e)
  have "x < of_int (n + 1)" unfolding n_def by linarith
  also have "\<dots> \<le> of_int (2 ^ nat (blen n))" using b(2) by (simp only: of_int_le_iff; simp)
  also have "\<dots> = 2 powi (blen n)" using bp by (simp add: powi_nonneg_eq)
  finally have hi: "x < 2 powi (expo x + 1)" by (simp add: e)
  from lo hi show ?thesis by simp
next
  case False
  define m where "m = \<lceil>1 / x\<rceil>"
  define k where "k = blen (m - 1)"
  have inv: "1 < 1 / x" using False assms by simp
  then have m2: "2 \<le> m" unfolding m_def by linarith
  then have b: "2 ^ nat (k - 1) \<le> m - 1" "m - 1 < 2 ^ nat k" and bp: "1 \<le> k"
    using blen_bounds[of "m - 1"] blen_pos[of "m - 1"] by (simp_all add: k_def)
  have e: "expo x = - k" using False by (simp add: expo_def m_def k_def)
  have c1: "1 / x \<le> of_int m" unfolding m_def by linarith
  have c2: "of_int (m - 1) < 1 / x" unfolding m_def by linarith
  have "m \<le> 2 ^ nat k" using b(2) by simp
  then have "of_int m \<le> (of_int (2 ^ nat k) :: rat)" by (simp only: of_int_le_iff)
  then have "of_int m \<le> (2 ^ nat k :: rat)" by simp
  with c1 have "1 / x \<le> 2 ^ nat k" by (rule order_trans)
  then have "1 / 2 ^ nat k \<le> x" using assms by (simp add: field_simps)
  then have lo: "2 powi expo x \<le> x" using bp by (simp add: e powi_neg_eq)
  have "(of_int (2 ^ nat (k - 1)) :: rat) \<le> of_int (m - 1)" using b(1) by (simp only: of_int_le_iff)
  then have "(2 ^ nat (k - 1) :: rat) \<le> of_int (m - 1)" by simp
  then have "2 ^ nat (k - 1) < 1 / x" using c2 by (rule order_le_less_trans)
  then have "x < 1 / 2 ^ nat (k - 1)" using assms by (simp add: field_simps)
  moreover have "(2::rat) powi (- (k - 1)) = 1 / 2 ^ nat (k - 1)"
    using bp by (intro powi_neg_eq) simp
  ultimately have hi: "x < 2 powi (expo x + 1)" by (simp add: e)
  from lo hi show ?thesis by simp
qed

lemma powi_less_cancel: "(2::rat) powi a < 2 powi b \<Longrightarrow> a < b"
  using power_int_increasing[of b a "2::rat"] by (cases "a < b") auto

lemma powi_mono: "a \<le> b \<Longrightarrow> (2::rat) powi a \<le> 2 powi b"
  by (simp add: power_int_increasing)

lemma powi_half: "(2::rat) powi (e - 52) / 2 = 2 powi (e - 53)"
proof -
  have "(2::rat) powi (e - 52) = 2 powi ((e - 53) + 1)" by simp
  also have "\<dots> = 2 powi (e - 53) * 2 powi 1" by (subst power_int_add) simp_all
  finally show ?thesis by simp
qed

lemma binary64_pos_error:
  assumes "0 < x" "x < 2 powi E" "- 1022 < E" "E \<le> 1023"
  shows "\<exists>y. binary64_pos x = Fin y \<and> 0 \<le> y \<and> \<bar>y - x\<bar> \<le> 2 powi (E - 54)"
proof -
  define e where "e = max (expo x) (- 1022)"
  define u where "u = (2::rat) powi (e - 52)"
  define m where "m = round_even (x / u)"
  have "2 powi expo x \<le> x" using expo_bounds[OF assms(1)] by simp
  with assms(2) have "(2::rat) powi expo x < 2 powi E" by linarith
  then have "expo x < E" by (rule powi_less_cancel)
  with assms(3) have eE: "e \<le> E - 1" by (simp add: e_def)
  with assms(4) have e_small: "e \<le> 1022" by simp
  have upos: "0 < u" by (simp add: u_def)
  have mpos: "0 \<le> m" unfolding m_def using assms(1) upos by (intro round_even_nonneg) simp
  have val: "binary64_pos x = Fin (of_int m * u)"
    using e_small by (simp add: binary64_pos_def Let_def e_def[symmetric] u_def[symmetric] m_def[symmetric])
  have "\<bar>of_int m - x / u\<bar> \<le> 1 / 2" unfolding m_def by (rule round_even_error)
  then have "\<bar>of_int m - x / u\<bar> * u \<le> 1 / 2 * u" using upos by (intro mult_right_mono) simp_all
  moreover have "(of_int m - x / u) * u = of_int m * u - x"
    using upos by (simp add: field_simps)
  then have "\<bar>of_int m - x / u\<bar> * u = \<bar>of_int m * u - x\<bar>"
    using upos by (metis abs_mult abs_of_pos)
  ultimately have "\<bar>of_int m * u - x\<bar> \<le> u / 2" by simp
  also have "u / 2 = 2 powi (e - 53)" unfolding u_def by (rule powi_half)
  also have "\<dots> \<le> 2 powi (E - 54)" using eE by (intro powi_mono) simp
  finally have "\<bar>of_int m * u - x\<bar> \<le> 2 powi (E - 54)" .
  moreover have "0 \<le> of_int m * u" using mpos upos by simp
  ultimately show ?thesis using val by simp
qed

lemma binary64_error:
  assumes "0 \<le> x" "x < 2 powi E" "- 1022 < E" "E \<le> 1023"
  shows "\<exists>y. binary64 x = Fin y \<and> 0 \<le> y \<and> \<bar>y - x\<bar> \<le> 2 powi (E - 54)"
proof (cases "x = 0")
  case True
  then show ?thesis by (simp add: binary64_def)
next
  case False
  with assms(1) have "0 < x" by simp
  then show ?thesis using binary64_pos_error[OF _ assms(2-4)] by (simp add: binary64_def)
qed

lemma ratio_error:
  assumes "c \<le> n" "0 < n"
  shows "\<exists>r. js_mul (js_div (num c) (num n)) (Fin 100) = Fin r \<and> 0 \<le> r
             \<and> \<bar>r - 100 * of_nat c / of_nat n\<bar> \<le> 1 / 2 ^ 45"
proof -
  define x where "x = (of_nat c :: rat) / of_nat n"
  have x0: "0 \<le> x" and x1: "x \<le> 1" using assms by (simp_all add: x_def)
  have "x < 2 powi 1" using x1 by simp
  from binary64_error[OF x0 this] obtain y where
    y: "binary64 x = Fin y" "0 \<le> y" "\<bar>y - x\<bar> \<le> 2 powi (- 53)" by auto
  have d: "js_div (num c) (num n) = Fin y" using assms(2) y(1) by (simp add: num_def x_def)
  have yb: "\<bar>y - x\<bar> \<le> 1 / 2 ^ 53" using y(3) by (simp add: power_int_minus_divide)
  then have "y \<le> 1 + 1 / 2 ^ 53" using x1 by linarith
  then have "y * 100 < 2 powi 7" by simp
  moreover have "0 \<le> y * 100" using y(2) by simp
  ultimately obtain r where
    r: "binary64 (y * 100) = Fin r" "0 \<le> r" "\<bar>r - y * 100\<bar> \<le> 2 powi (7 - 54)"
    using binary64_error[of "y * 100" 7] by auto
  have rb: "\<bar>r - y * 100\<bar> \<le> 1 / 2 ^ 47" using r(3) by (simp add: power_int_minus_divide)
  have "\<bar>r - 100 * x\<bar> \<le> \<bar>r - y * 100\<bar> + 100 * \<bar>y - x\<bar>"
    by (auto simp: abs_if split: if_splits)
  also have "\<dots> \<le> 1 / 2 ^ 47 + 100 * (1 / 2 ^ 53)"
    using rb yb by (intro add_mono mult_left_mono) simp_all
  also have "\<dots> \<le> 1 / 2 ^ 45" by simp
  finally have "\<bar>r - 100 * of_nat c / of_nat n\<bar> \<le> 1 / 2 ^ 45" by (simp add: x_def)
  then show ?thesis using d r(1,2) by simp
qed

section \<open>The rounded percentage\<close>


section \<open>Completing a lesson\<close>

lemma update_first_find:
  "find P xs = Some l \<Longrightarrow>
     \<exists>i<length xs. xs ! i = l \<and> (\<forall>j<i. \<not> P (xs ! j)) \<and> update_first P f xs = xs[i := f l]"
proof (induction xs)
  case Nil
  then show ?case by simp
next
  case (Cons x xs)
  show ?case
  proof (cases "P x")
    case True
    with Cons.prems have "x = l" by simp
    with True show ?thesis by (intro exI[of _ 0]) simp
  next
    case False
    with Cons.prems have "find P xs = Some l" by simp
    from Cons.IH[OF this] obtain i where
      i: "i < length xs" "xs ! i = l" "\<forall>j<i. \<not> P (xs ! j)" "update_first P f xs = xs[i := f l]"
      by blast
    have "\<forall>j<Suc i. \<not> P ((x # xs) ! j)"
      using False i(3) by (auto simp: less_Suc_eq_0_disj)
    with i False show ?thesis by (intro exI[of _ "Suc i"]) simp
  qed
qed

lemma update_first_none: "find P xs = None \<Longrightarrow> update_first P f xs = xs"
  by (induction xs) (auto split: if_splits)

lemma length_update_first [simp]: "length (update_first P f xs) = length xs"
  by (induction xs) auto

lemma set_update_first: "set (update_first P f xs) \<subseteq> set xs \<union> f ` set xs"
  by (induction xs) auto

lemma count_completed_update:
  "i < length xs \<Longrightarrow>
   length (filter completed (xs[i := (xs ! i)\<lparr>completed := True, completedAt_l := t\<rparr>])) =
     (if completed (xs ! i) then length (filter completed xs) else Suc (length (filter completed xs)))"
proof (induction xs arbitrary: i)
  case Nil
  then show ?case by simp
next
  case (Cons x xs)
  then show ?case by (cases i) auto
qed

lemma findOne_save:
  assumes "distinct (map id_p ps)" "findOne pid user ps = Some p"
    and "id_p p' = pid" "userId_p p' = user"
  shows "findOne pid user (update_first (\<lambda>d. id_p d = id_p p') (\<lambda>d. p') ps) = Some p'"
  using assms(1,2)
proof (induction ps)
  case Nil
  then show ?case by (simp add: findOne_def)
next
  case (Cons d ds)
  show ?case
  proof (cases "id_p d = pid")
    case True
    have "userId_p d = user"
    proof (rule ccontr)
      assume "userId_p d \<noteq> user"
      with Cons.prems(2) have "find (\<lambda>p. id_p p = pid \<and> userId_p p = user) ds = Some p"
        by (simp add: findOne_def)
      then have "p \<in> set ds" "id_p p = pid" by (auto simp: find_Some_iff)
      then have "pid \<in> set (map id_p ds)" by force
      with True Cons.prems(1) show False by simp
    qed
    with True assms(3,4) show ?thesis by (simp add: findOne_def)
  next
    case False
    with Cons.prems have "findOne pid user ds = Some p" "distinct (map id_p ds)"
      by (simp_all add: findOne_def)
    with Cons.IH have "findOne pid user (update_first (\<lambda>d. id_p d = id_p p') (\<lambda>d. p') ds) = Some p'"
      by simp
    with False assms(3) show ?thesis by (simp add: findOne_def)
  qed
qed

lemma findOne_owner: "findOne pid user ps = Some p \<Longrightarrow> id_p p = pid \<and> userId_p p = user \<and> p \<in> set ps"
  by (auto simp: findOne_def find_Some_iff)

lemma progress_5_1: "js_mul (js_div (num 1) (num 5)) (Fin 100) = Fin 20"
  by code_simp

lemma progress_5_3: "js_mul (js_div (num 3) (num 5)) (Fin 100) = Fin 60"
  by code_simp

text \<open>
  C1. When the path id casts, the caller owns the path and the lesson id is present in it,
  completing the lesson answers 200 with the updated path and stores it: the first lesson with that id has
  its completed flag set and the completion time recorded, the other lessons are unchanged,
  and the progress is 100 times the share of completed lessons, computed in binary64
  arithmetic (within \<open>1 / 2 ^ 45\<close> of the exact value). On a path of five lessons the
  progress is 20 after the first completion and 60 when two others were completed before.
\<close>

theorem complete_lesson_progress:
  assumes "distinct (map id_p (db_paths w))"
    and "ObjectId_cast env id' = Some pid"
    and "findOne pid user (db_paths w) = Some p"
    and "find (\<lambda>l. num_eq (id_l l) (parseInt lessonId)) (lessons p) = Some l"
  shows "\<exists>p' i r.
           complete_lesson env user id' lessonId now w = ((200, Path p'), save p' w)
         \<and> findOne pid user (db_paths (save p' w)) = Some p'
         \<and> p' = p\<lparr>lessons := lessons p', progress := progress p', updatedAt := now\<rparr>
         \<and> i < length (lessons p) \<and> lessons p ! i = l
         \<and> (\<forall>j<i. \<not> num_eq (id_l (lessons p ! j)) (parseInt lessonId))
         \<and> lessons p' = (lessons p)[i := l\<lparr>completed := True, completedAt_l := Some now\<rparr>]
         \<and> progress p' = js_mul (js_div (num (length (filter completed (lessons p'))))
                                      (num (length (lessons p')))) (Fin 100)
         \<and> progress p' = Fin r
         \<and> \<bar>r - 100 * of_nat (length (filter completed (lessons p'))) / of_nat (length (lessons p'))\<bar>
             \<le> 1 / 2 ^ 45
         \<and> (length (lessons p) = 5 \<and> filter completed (lessons p) = [] \<longrightarrow> progress p' = Fin 20)
         \<and> (length (lessons p) = 5 \<and> length (filter completed (lessons p)) = 2 \<and> \<not> completed l
              \<longrightarrow> progress p' = Fin 60)"
proof -
  define P where "P = (\<lambda>l::lesson. num_eq (id_l l) (parseInt lessonId))"
  define ls where "ls = update_first P (\<lambda>l. l\<lparr>completed := True, completedAt_l := Some now\<rparr>) (lessons p)"
  define c where "c = length (filter completed ls)"
  define pr where "pr = js_mul (js_div (num c) (num (length ls))) (Fin 100)"
  define p' where "p' = p\<lparr>lessons := ls, progress := pr, updatedAt := now\<rparr>"
  from update_first_find[OF assms(4)[folded P_def]] obtain i where
    i: "i < length (lessons p)" "lessons p ! i = l" "\<forall>j<i. \<not> P (lessons p ! j)"
       "ls = (lessons p)[i := l\<lparr>completed := True, completedAt_l := Some now\<rparr>]"
    unfolding ls_def by blast
  have run: "complete_lesson env user id' lessonId now w = ((200, Path p'), save p' w)"
    using assms(2,3,4)
    by (simp add: complete_lesson_def Let_def p'_def pr_def c_def ls_def P_def)
  have own: "id_p p = pid" "userId_p p = user" using findOne_owner[OF assms(3)] by simp_all
  have stored: "findOne pid user (db_paths (save p' w)) = Some p'"
    unfolding save_def using findOne_save[OF assms(1,3), of p'] own by (simp add: p'_def)
  have len: "length ls = length (lessons p)" by (simp add: ls_def)
  have cnt: "c = (if completed l then length (filter completed (lessons p))
                  else Suc (length (filter completed (lessons p))))"
    unfolding c_def i(4) using count_completed_update[OF i(1), of "Some now"] i(2) by simp
  have "completed (ls ! i)" using i(1) by (simp add: i(4))
  moreover have "ls ! i \<in> set ls" using i(1) len by simp
  ultimately have "ls ! i \<in> set (filter completed ls)" by simp
  then have cpos: "0 < c" unfolding c_def by (cases "filter completed ls") auto
  have cle: "c \<le> length ls" unfolding c_def by simp
  have npos: "0 < length ls" using i(1) len by linarith
  from ratio_error[OF cle npos] obtain r where
    r: "pr = Fin r" "\<bar>r - 100 * of_nat c / of_nat (length ls)\<bar> \<le> 1 / 2 ^ 45"
    unfolding pr_def by blast
  have e1: "length (lessons p) = 5 \<and> filter completed (lessons p) = [] \<longrightarrow> pr = Fin 20"
  proof (intro impI, elim conjE)
    assume a: "length (lessons p) = 5" "filter completed (lessons p) = []"
    have "l \<in> set (lessons p)" using i(1,2) by auto
    with a(2) have "\<not> completed l" by (auto simp: filter_empty_conv)
    with cnt a(2) have c1: "c = 1" by simp
    have n5: "length ls = 5" using a(1) len by simp
    show "pr = Fin 20" unfolding pr_def c1 n5 by (rule progress_5_1)
  qed
  have e2: "length (lessons p) = 5 \<and> length (filter completed (lessons p)) = 2 \<and> \<not> completed l
              \<longrightarrow> pr = Fin 60"
  proof (intro impI, elim conjE)
    assume a: "length (lessons p) = 5" "length (filter completed (lessons p)) = 2" "\<not> completed l"
    with cnt have c3: "c = 3" by simp
    have n5: "length ls = 5" using a(1) len by simp
    show "pr = Fin 60" unfolding pr_def c3 n5 by (rule progress_5_3)
  qed
  have sel: "lessons p' = ls" "progress p' = pr" by (simp_all add: p'_def)
  have F3: "p' = p\<lparr>lessons := lessons p', progress := progress p', updatedAt := now\<rparr>"
    by (simp add: p'_def)
  have F6: "\<forall>j<i. \<not> num_eq (id_l (lessons p ! j)) (parseInt lessonId)"
    using i(3) by (simp add: P_def)
  have F7: "lessons p' = (lessons p)[i := l\<lparr>completed := True, completedAt_l := Some now\<rparr>]"
    using i(4) sel by simp
  have F8: "progress p' = js_mul (js_div (num (length (filter completed (lessons p'))))
                                      (num (length (lessons p')))) (Fin 100)"
    unfolding sel pr_def c_def ..
  have F9: "progress p' = Fin r" unfolding sel by (rule r(1))
  have F10: "\<bar>r - 100 * of_nat (length (filter completed (lessons p'))) / of_nat (length (lessons p'))\<bar>
               \<le> 1 / 2 ^ 45"
    unfolding sel c_def[symmetric] by (rule r(2))
  have F11: "length (lessons p) = 5 \<and> filter completed (lessons p) = [] \<longrightarrow> progress p' = Fin 20"
    unfolding sel by (rule e1)
  have F12: "length (lessons p) = 5 \<and> length (filter completed (lessons p)) = 2 \<and> \<not> completed l
               \<longrightarrow> progress p' = Fin 60"
    unfolding sel by (rule e2)
  from run stored F3 i(1,2) F6 F7 F8 F9 F10 F11 F12 show ?thesis by blast
qed

theorem complete_lesson_progress_witness:
  "distinct (map id_p (db_paths demo_world))
   \<and> ObjectId_cast run_env ''000000000000000000000001'' = Some 1
   \<and> findOne 1 7 (db_paths demo_world) = Some demo_path
   \<and> find (\<lambda>l. num_eq (id_l l) (parseInt ''3'')) (lessons demo_path) = Some (demo_lesson 3 False)
   \<and> (\<exists>p'. complete_lesson run_env 7 ''000000000000000000000001'' ''3'' 1000 demo_world
             = ((200, Path p'), save p' demo_world)
           \<and> progress p' = Fin 60)"
proof -
  have h1: "distinct (map id_p (db_paths demo_world))" by code_simp
  have h0: "ObjectId_cast run_env ''000000000000000000000001'' = Some 1" by code_simp
  have h2: "findOne 1 7 (db_paths demo_world) = Some demo_path" by code_simp
  have h3: "find (\<lambda>l. num_eq (id_l l) (parseInt ''3'')) (lessons demo_path)
              = Some (demo_lesson 3 False)" by code_simp
  have a: "length (lessons demo_path) = 5 \<and> length (filter completed (lessons demo_path)) = 2
             \<and> \<not> completed (demo_lesson 3 False)" by code_simp
  from complete_lesson_progress[OF h1 h0 h2 h3, of 1000] a h0 h1 h2 h3 show ?thesis by blast
qed

section \<open>Paths of other users\<close>

lemma findOne_none:
  "(\<forall>p\<in>set ps. id_p p = pid \<longrightarrow> userId_p p \<noteq> user) \<Longrightarrow> findOne pid user ps = None"
  by (auto simp: findOne_def find_None_iff)

text \<open>
  C4 (amended). For every caller and every path id segment: when the segment does not cast
  to an \<^verbatim>\<open>ObjectId\<close>, fetching the path and completing a lesson on it both answer 500 with
  the route's fixed message, the store unchanged; when it casts and no stored path has that
  id together with the caller as owner (the path is absent or belongs to another user), both
  answer 404 with the fixed message, the store unchanged; when it casts to an owned path,
  fetching answers 200 with that path, and completing answers 404 if \<^verbatim>\<open>parseInt\<close> of the
  lesson segment equals the id of no lesson of the path and 200 if it equals one. A path in
  a response of either route is always the caller's own, with the id the segment casts to.
\<close>

theorem not_owned_is_404:
  "(ObjectId_cast env id' = None \<longrightarrow>
        get_path env user id' w = (500, Error ''Failed to fetch learning path'')
      \<and> complete_lesson env user id' lessonId now w = ((500, Error ''Failed to update lesson''), w))
   \<and> (\<forall>pid. ObjectId_cast env id' = Some pid
            \<and> (\<forall>p\<in>set (db_paths w). id_p p = pid \<longrightarrow> userId_p p \<noteq> user) \<longrightarrow>
        get_path env user id' w = (404, Error ''Learning path not found'')
      \<and> complete_lesson env user id' lessonId now w
          = ((404, Error ''Learning path not found''), w))
   \<and> (\<forall>pid p. ObjectId_cast env id' = Some pid \<and> findOne pid user (db_paths w) = Some p \<longrightarrow>
        get_path env user id' w = (200, Path p))
   \<and> (\<forall>pid p. ObjectId_cast env id' = Some pid \<and> findOne pid user (db_paths w) = Some p
            \<and> (\<forall>l\<in>set (lessons p). \<not> num_eq (id_l l) (parseInt lessonId)) \<longrightarrow>
        complete_lesson env user id' lessonId now w = ((404, Error ''Lesson not found''), w))
   \<and> (\<forall>pid p l. ObjectId_cast env id' = Some pid \<and> findOne pid user (db_paths w) = Some p
            \<and> find (\<lambda>l. num_eq (id_l l) (parseInt lessonId)) (lessons p) = Some l \<longrightarrow>
        fst (fst (complete_lesson env user id' lessonId now w)) = 200)
   \<and> (\<forall>st p. get_path env user id' w = (st, Path p) \<longrightarrow>
          userId_p p = user \<and> ObjectId_cast env id' = Some (id_p p))
   \<and> (\<forall>st p w'. complete_lesson env user id' lessonId now w = ((st, Path p), w') \<longrightarrow>
          userId_p p = user \<and> ObjectId_cast env id' = Some (id_p p))"
proof (intro conjI impI allI)
  assume c: "ObjectId_cast env id' = None"
  then show "get_path env user id' w = (500, Error ''Failed to fetch learning path'')"
    by (simp add: get_path_def)
  from c show "complete_lesson env user id' lessonId now w
                 = ((500, Error ''Failed to update lesson''), w)"
    by (simp add: complete_lesson_def)
next
  fix pid
  assume a: "ObjectId_cast env id' = Some pid
               \<and> (\<forall>p\<in>set (db_paths w). id_p p = pid \<longrightarrow> userId_p p \<noteq> user)"
  then have n: "findOne pid user (db_paths w) = None" by (intro findOne_none) simp
  with a show "get_path env user id' w = (404, Error ''Learning path not found'')"
    by (simp add: get_path_def)
  from n a show "complete_lesson env user id' lessonId now w
                   = ((404, Error ''Learning path not found''), w)"
    by (simp add: complete_lesson_def)
next
  fix pid p
  assume "ObjectId_cast env id' = Some pid \<and> findOne pid user (db_paths w) = Some p"
  then show "get_path env user id' w = (200, Path p)" by (simp add: get_path_def)
next
  fix pid p
  assume a: "ObjectId_cast env id' = Some pid \<and> findOne pid user (db_paths w) = Some p
            \<and> (\<forall>l\<in>set (lessons p). \<not> num_eq (id_l l) (parseInt lessonId))"
  then have "find (\<lambda>l. num_eq (id_l l) (parseInt lessonId)) (lessons p) = None"
    by (auto simp: find_None_iff)
  with a show "complete_lesson env user id' lessonId now w = ((404, Error ''Lesson not found''), w)"
    by (simp add: complete_lesson_def)
next
  fix pid p l
  assume "ObjectId_cast env id' = Some pid \<and> findOne pid user (db_paths w) = Some p
            \<and> find (\<lambda>l. num_eq (id_l l) (parseInt lessonId)) (lessons p) = Some l"
  then show "fst (fst (complete_lesson env user id' lessonId now w)) = 200"
    by (simp add: complete_lesson_def Let_def)
next
  fix st p
  assume "get_path env user id' w = (st, Path p)"
  then obtain pid where "ObjectId_cast env id' = Some pid" "findOne pid user (db_paths w) = Some p"
    by (auto simp: get_path_def split: option.splits)
  then show "userId_p p = user" "ObjectId_cast env id' = Some (id_p p)"
    using findOne_owner by fastforce+
next
  fix st p w'
  assume a: "complete_lesson env user id' lessonId now w = ((st, Path p), w')"
  then obtain pid q where c: "ObjectId_cast env id' = Some pid"
    and q: "findOne pid user (db_paths w) = Some q"
    by (auto simp: complete_lesson_def split: option.splits)
  with a have "userId_p p = userId_p q \<and> id_p p = id_p q"
    by (auto simp: complete_lesson_def Let_def split: option.splits)
  with findOne_owner[OF q] c show "userId_p p = user" "ObjectId_cast env id' = Some (id_p p)"
    by simp_all
qed

theorem not_owned_is_404_witness:
  "ObjectId_cast run_env ''000000000000000000000001'' = Some 1
   \<and> list_all (\<lambda>p. id_p p = 1 \<longrightarrow> userId_p p \<noteq> 8) (db_paths demo_world)
   \<and> get_path run_env 8 ''000000000000000000000001'' demo_world
       = (404, Error ''Learning path not found'')
   \<and> complete_lesson run_env 8 ''000000000000000000000001'' ''3'' 1000 demo_world
       = ((404, Error ''Learning path not found''), demo_world)
   \<and> findOne 1 7 (db_paths demo_world) = Some demo_path
   \<and> list_all (\<lambda>l. \<not> num_eq (id_l l) (parseInt ''6'')) (lessons demo_path)
   \<and> complete_lesson run_env 7 ''000000000000000000000001'' ''6'' 1000 demo_world
       = ((404, Error ''Lesson not found''), demo_world)
   \<and> get_path run_env 7 ''000000000000000000000001'' demo_world = (200, Path demo_path)
   \<and> userId_p demo_path = 7
   \<and> ObjectId_cast run_env ''1'' = None
   \<and> get_path run_env 7 ''1'' demo_world = (500, Error ''Failed to fetch learning path'')"
proof -
  have h0: "ObjectId_cast run_env ''000000000000000000000001'' = Some 1" by code_simp
  have h1: "\<forall>p\<in>set (db_paths demo_world). id_p p = 1 \<longrightarrow> userId_p p \<noteq> 8" by code_simp
  have h2: "findOne 1 7 (db_paths demo_world) = Some demo_path" by code_simp
  have h3: "\<forall>l\<in>set (lessons demo_path). \<not> num_eq (id_l l) (parseInt ''6'')" by code_simp
  have h5: "ObjectId_cast run_env ''1'' = None" by code_simp
  note t8 = not_owned_is_404[where env = run_env and id' = "''000000000000000000000001''"
      and user = 8 and w = demo_world and lessonId = "''3''" and now = 1000]
  note t7 = not_owned_is_404[where env = run_env and id' = "''000000000000000000000001''"
      and user = 7 and w = demo_world and lessonId = "''6''" and now = 1000]
  note t1 = not_owned_is_404[where env = run_env and id' = "''1''"
      and user = 7 and w = demo_world and lessonId = "''6''" and now = 1000]
  from t8 h0 h1
  have c1: "get_path run_env 8 ''000000000000000000000001'' demo_world
              = (404, Error ''Learning path not found'')"
    and c2: "complete_lesson run_env 8 ''000000000000000000000001'' ''3'' 1000 demo_world
               = ((404, Error ''Learning path not found''), demo_world)"
    by blast+
  from t7 h0 h2 h3
  have c3: "complete_lesson run_env 7 ''000000000000000000000001'' ''6'' 1000 demo_world
              = ((404, Error ''Lesson not found''), demo_world)"
    and c4: "get_path run_env 7 ''000000000000000000000001'' demo_world = (200, Path demo_path)"
    by blast+
  from t7 c4 have c5: "userId_p demo_path = 7" by blast
  from t1 h5 have c6: "get_path run_env 7 ''1'' demo_world
                         = (500, Error ''Failed to fetch learning path'')"
    by blast
  from h0 h1 h2 h3 h5 c1 c2 c3 c4 c5 c6 show ?thesis unfolding list_all_iff by blast
qed

theorem not_owned_is_404_counterexample:
  "ObjectId_cast run_env ''not-an-id'' = None
   \<and> list_all (\<lambda>p. ObjectId_cast run_env ''not-an-id'' \<noteq> Some (id_p p)) (db_paths demo_world)
   \<and> get_path run_env 8 ''not-an-id'' demo_world = (500, Error ''Failed to fetch learning path'')
   \<and> complete_lesson run_env 8 ''not-an-id'' ''3'' 1000 demo_world
       = ((500, Error ''Failed to update lesson''), demo_world)
   \<and> map id_l (lessons demo_path) = [Fin 1, Fin 2, Fin 3, Fin 4, Fin 5]
   \<and> parseInt ''3abc'' = Fin 3
   \<and> fst (fst (complete_lesson run_env 7 ''000000000000000000000001'' ''3abc'' 1000 demo_world))
       = 200"
  by code_simp

section \<open>Creating a path\<close>

lemma trim_blank: "\<forall>c\<in>set s. is_space c \<Longrightarrow> trim s = []"
proof -
  assume "\<forall>c\<in>set s. is_space c"
  then have d: "dropWhile is_space s = []" by simp
  show ?thesis unfolding trim_def d by simp
qed

text \<open>
  C5. A request to create a path whose topic is missing, empty or made of white space only
  is answered 400, and the state is returned unchanged: no request has been sent to the
  model gateway and no document has been stored.
\<close>

theorem blank_topic_is_400:
  assumes "topic = None \<or> (\<exists>s. topic = Some (JStr s) \<and> (\<forall>c\<in>set s. is_space c))"
  shows "generate_path env user topic reply now w = ((400, Error ''Topic is required''), w)"
  using assms
proof
  assume "topic = None"
  then show ?thesis by (simp add: generate_path_def)
next
  assume "\<exists>s. topic = Some (JStr s) \<and> (\<forall>c\<in>set s. is_space c)"
  then obtain s where s: "topic = Some (JStr s)" "\<forall>c\<in>set s. is_space c" by blast
  from s(2) have "trim s = []" by (rule trim_blank)
  with s(1) show ?thesis by (simp add: generate_path_def)
qed

theorem blank_topic_is_400_witness:
  "(Some (JStr [CHR 0x20, CHR 0x09, CHR 0x0A]) = None
      \<or> (\<exists>s. Some (JStr [CHR 0x20, CHR 0x09, CHR 0x0A]) = Some (JStr s) \<and> (\<forall>c\<in>set s. is_space c)))
   \<and> generate_path run_env 7 (Some (JStr [CHR 0x20, CHR 0x09, CHR 0x0A])) (Some ''{}'') 1000 demo_world
       = ((400, Error ''Topic is required''), demo_world)"
proof -
  have "\<forall>c\<in>set [CHR 0x20, CHR 0x09, CHR 0x0A]. is_space c" by code_simp
  then have h: "Some (JStr [CHR 0x20, CHR 0x09, CHR 0x0A]) = None
      \<or> (\<exists>s. Some (JStr [CHR 0x20, CHR 0x09, CHR 0x0A]) = Some (JStr s) \<and> (\<forall>c\<in>set s. is_space c))"
    by blast
  from blank_topic_is_400[OF h] h show ?thesis by blast
qed

lemma map_lessons_shape:
  "map_lessons idx ls = Inr ls' \<Longrightarrow>
     map id_l ls' = map num [Suc idx ..< Suc idx + length ls]
   \<and> (\<forall>l\<in>set ls'. \<not> completed l \<and> hasQuiz l \<and> completedAt_l l = None)"
proof (induction ls arbitrary: idx ls')
  case Nil
  then show ?case by simp
next
  case (Cons x xs)
  from Cons.prems obtain t c r where
    r: "map_lessons (Suc idx) xs = Inr r"
    and ls': "ls' = \<lparr>id_l = num (idx + 1), title_l = t, content_l = c,
                      completed = False, hasQuiz = True, completedAt_l = None\<rparr> # r"
    by (auto split: sum.splits)
  from Cons.IH[OF r] have IH: "map id_l r = map num [Suc (Suc idx) ..< Suc (Suc idx) + length xs]"
    "\<forall>l\<in>set r. \<not> completed l \<and> hasQuiz l \<and> completedAt_l l = None" by simp_all
  have "[Suc idx ..< Suc idx + length (x # xs)] = Suc idx # [Suc (Suc idx) ..< Suc (Suc idx) + length xs]"
    by (simp add: upt_rec)
  with IH ls' show ?case by simp
qed

lemma path_from_reply_ok:
  assumes "path_from_reply env user reply now w = ((200, b), w')"
  shows "\<exists>responseText m pathData ls p.
           reply = Some responseText \<and> json_match responseText = Some m \<and> JSON_parse env m = Some pathData
         \<and> member pathData ''lessons'' = Some (JArr ls)
         \<and> b = Path p \<and> w' = w\<lparr>db_paths := db_paths w @ [p]\<rparr> \<and> path_valid env p
         \<and> userId_p p = user \<and> id_p p = new_id (map id_p (db_paths w))
         \<and> length (lessons p) = length ls
         \<and> map id_l (lessons p) = map num [1 ..< Suc (length ls)]
         \<and> (\<forall>l\<in>set (lessons p). \<not> completed l \<and> hasQuiz l \<and> completedAt_l l = None)
         \<and> progress p = Fin 0"
proof -
  from assms obtain responseText where t: "reply = Some responseText"
    by (cases reply) (auto simp: path_from_reply_def)
  from assms t obtain m where m: "json_match responseText = Some m"
    by (cases "json_match responseText") (auto simp: path_from_reply_def)
  from assms t m obtain pathData where pd: "JSON_parse env m = Some pathData"
    by (cases "JSON_parse env m") (auto simp: path_from_reply_def)
  from assms t m pd have tr: "truthy (Some pathData)"
    by (auto simp: path_from_reply_def split: if_splits)
  from assms t m pd tr obtain ls where ls: "member pathData ''lessons'' = Some (JArr ls)"
    by (auto simp: path_from_reply_def split: option.splits json.splits)
  from assms t m pd tr ls obtain lessons' where ml: "map_lessons 0 ls = Inr lessons'"
    by (auto simp: path_from_reply_def split: sum.splits)
  define doc where "doc = \<lparr>id_p = 0, userId_p = user, title_p = member pathData ''title'',
      description = member pathData ''description'', progress = Fin 0, lessons = lessons',
      createdAt = now, updatedAt = now\<rparr>"
  define p where "p = doc\<lparr>id_p := new_id (map id_p (db_paths w))\<rparr>"
  from assms t m pd tr ls ml have
    res: "path_valid env p" "b = Path p" "w' = w\<lparr>db_paths := db_paths w @ [p]\<rparr>"
    by (auto simp: path_from_reply_def LearningPath_create_def Let_def doc_def p_def
             split: sum.splits if_splits)
  have lp: "lessons p = lessons'" "progress p = Fin 0" "userId_p p = user"
    "id_p p = new_id (map id_p (db_paths w))"
    by (simp_all add: p_def doc_def)
  from map_lessons_shape[OF ml] have
    sh: "map id_l lessons' = map num [1 ..< Suc (length ls)]"
      "\<forall>l\<in>set lessons'. \<not> completed l \<and> hasQuiz l \<and> completedAt_l l = None"
    by simp_all
  have len: "length lessons' = length ls"
    using arg_cong[OF sh(1), of length] by (simp del: upt_Suc)
  from t m pd ls res lp sh len show ?thesis by auto
qed

text \<open>
  C6. When creating a path answers 200, the reply of the model held a JSON object whose
  \<^verbatim>\<open>lessons\<close> is an array of some \<open>n\<close> entries, and the document appended to the store
  and returned has \<open>n\<close> lessons with the ids 1 to \<open>n\<close> in order, none completed, all with
  the quiz flag, and progress 0.
\<close>

theorem generated_path_shape:
  assumes "generate_path env user topic reply now w = ((200, b), w')"
  shows "\<exists>responseText m pathData ls p.
           reply = Some responseText \<and> json_match responseText = Some m \<and> JSON_parse env m = Some pathData
         \<and> member pathData ''lessons'' = Some (JArr ls)
         \<and> b = Path p \<and> db_paths w' = db_paths w @ [p] \<and> userId_p p = user
         \<and> length (lessons p) = length ls
         \<and> map id_l (lessons p) = map num [1 ..< Suc (length ls)]
         \<and> (\<forall>l\<in>set (lessons p). \<not> completed l \<and> hasQuiz l \<and> completedAt_l l = None)
         \<and> progress p = Fin 0"
proof -
  from assms obtain s where
    "path_from_reply env user reply now
       (w\<lparr>llm_log := llm_log w @ [\<lparr>model = ''claude-sonnet-4-20250514'', max_tokens = 2000,
                                   content = path_prompt s\<rparr>]\<rparr>) = ((200, b), w')"
    by (auto simp: generate_path_def generate_failed_def
             split: if_splits option.splits json.splits)
  from path_from_reply_ok[OF this] show ?thesis by fastforce
qed

theorem generated_path_shape_witness:
  "fst (generate_path run_env 7 (Some (JStr ''Python basics'')) (Some demo_reply) 1000 empty_world)
     = (200, Path demo_generated)
   \<and> map id_l (lessons demo_generated) = map num [1 ..< Suc 5]
   \<and> list_all (\<lambda>l. \<not> completed l \<and> hasQuiz l \<and> completedAt_l l = None) (lessons demo_generated)
   \<and> progress demo_generated = Fin 0"
proof -
  have h: "fst (generate_path run_env 7 (Some (JStr ''Python basics'')) (Some demo_reply) 1000 empty_world)
     = (200, Path demo_generated)" by code_simp
  then obtain w' where
    "generate_path run_env 7 (Some (JStr ''Python basics'')) (Some demo_reply) 1000 empty_world
       = ((200, Path demo_generated), w')"
    by (metis prod.collapse)
  from generated_path_shape[OF this] obtain ls :: "json list" where
    a: "length (lessons demo_generated) = length ls"
       "map id_l (lessons demo_generated) = map num [1 ..< Suc (length ls)]"
       "\<forall>l\<in>set (lessons demo_generated). \<not> completed l \<and> hasQuiz l \<and> completedAt_l l = None"
       "progress demo_generated = Fin 0"
    by (auto simp del: upt_Suc)
  have "length (lessons demo_generated) = 5" by (simp add: demo_generated_def)
  with a(1) have "length ls = 5" by simp
  with a(2) have "map id_l (lessons demo_generated) = map num [1 ..< Suc 5]" by (simp del: upt_Suc)
  with h a(3,4) show ?thesis unfolding list_all_iff by blast
qed

section \<open>Quiz history\<close>

text \<open>
  C8. The history of a user is the first 20 entries of that user's quiz results ordered by
  completion time, latest first: at most 20 results, all of that user, and none of the
  results left out is later than a result returned.
\<close>

theorem quiz_history_recent:
  "\<exists>rs xs. quiz_history user w = (200, Results rs)
      \<and> rs = take 20 xs
      \<and> mset xs = mset (filter (\<lambda>r. userId_r r = user) (db_results w))
      \<and> sorted_wrt (\<lambda>a b. completedAt_r b \<le> completedAt_r a) xs
      \<and> length rs \<le> 20
      \<and> (\<forall>r\<in>set rs. userId_r r = user \<and> r \<in> set (db_results w))
      \<and> (\<forall>r\<in>set rs. \<forall>r'\<in>set (drop 20 xs). completedAt_r r' \<le> completedAt_r r)"
proof -
  define ys where "ys = filter (\<lambda>r. userId_r r = user) (db_results w)"
  define xs where "xs = sort_key (\<lambda>r. - completedAt_r r) ys"
  have run: "quiz_history user w = (200, Results (take 20 xs))"
    by (simp add: quiz_history_def xs_def ys_def)
  have ms: "mset xs = mset ys" by (simp add: xs_def)
  have "sorted (map (\<lambda>r. - completedAt_r r) xs)" unfolding xs_def by (rule sorted_sort_key)
  then have srt: "sorted_wrt (\<lambda>a b. completedAt_r b \<le> completedAt_r a) xs"
    by (simp add: sorted_map)
  have "set xs = set ys" using ms by (rule mset_eq_setD)
  then have own: "\<forall>r\<in>set (take 20 xs). userId_r r = user \<and> r \<in> set (db_results w)"
    using set_take_subset[of 20 xs] by (auto simp: ys_def)
  have "sorted_wrt (\<lambda>a b. completedAt_r b \<le> completedAt_r a) (take 20 xs @ drop 20 xs)"
    using srt by simp
  then have old: "\<forall>r\<in>set (take 20 xs). \<forall>r'\<in>set (drop 20 xs). completedAt_r r' \<le> completedAt_r r"
    unfolding sorted_wrt_append by blast
  have len: "length (take 20 xs) \<le> 20" by simp
  from run ms srt own old len show ?thesis unfolding ys_def by blast
qed

theorem quiz_history_recent_witness:
  "quiz_history 7 demo_history
     = (200, Results (map (\<lambda>k. demo_result k 7 k)
                        [29, 28, 27, 26, 24, 23, 22, 21, 19, 18, 17, 16, 14, 13, 12, 11, 9, 8, 7, 6]))
   \<and> (\<exists>xs. map (\<lambda>k. demo_result k 7 k)
                [29, 28, 27, 26, 24, 23, 22, 21, 19, 18, 17, 16, 14, 13, 12, 11, 9, 8, 7, 6] = take 20 xs
          \<and> mset xs = mset (filter (\<lambda>r. userId_r r = 7) (db_results demo_history))
          \<and> sorted_wrt (\<lambda>a b. completedAt_r b \<le> completedAt_r a) xs)"
proof -
  define L where "L = map (\<lambda>k. demo_result k 7 k)
                        [29, 28, 27, 26, 24, 23, 22, 21, 19, 18, 17, 16, 14, 13, 12, 11, 9, 8, 7, 6]"
  have h: "quiz_history 7 demo_history = (200, Results L)" unfolding L_def by code_simp
  from quiz_history_recent[of 7 demo_history] obtain rs xs where
    a: "quiz_history 7 demo_history = (200, Results rs)" "rs = take 20 xs"
       "mset xs = mset (filter (\<lambda>r. userId_r r = 7) (db_results demo_history))"
       "sorted_wrt (\<lambda>a b. completedAt_r b \<le> completedAt_r a) xs"
    by blast
  from a(1) h have "rs = L" by simp
  with a(2) have "L = take 20 xs" by simp
  with a(3,4) have "\<exists>xs. L = take 20 xs
          \<and> mset xs = mset (filter (\<lambda>r. userId_r r = 7) (db_results demo_history))
          \<and> sorted_wrt (\<lambda>a b. completedAt_r b \<le> completedAt_r a) xs"
    by blast
  with h show ?thesis unfolding L_def by (rule conjI)
qed

section \<open>Progress is derivable from the completed flags\<close>

lemma path_from_reply_failed:
  assumes "path_from_reply env user reply now w = ((st, b), w')" "st \<noteq> 200"
  shows "w' = w"
proof (rule ccontr)
  assume "w' \<noteq> w"
  with assms(1) have "st = 200"
    by (auto simp: path_from_reply_def split: option.splits if_splits json.splits sum.splits prod.splits)
  with assms(2) show False by simp
qed

lemma path_from_reply_paths:
  assumes "path_from_reply env user reply now w = (res, w')"
  shows "db_paths w' = db_paths w
       \<or> (\<exists>p. db_paths w' = db_paths w @ [p] \<and> progress p = Fin 0
               \<and> (\<forall>l\<in>set (lessons p). \<not> completed l))"
proof (cases "fst res = 200")
  case True
  then have "path_from_reply env user reply now w = ((200, snd res), w')"
    using assms by (metis prod.collapse)
  from path_from_reply_ok[OF this] show ?thesis by auto
next
  case False
  have "path_from_reply env user reply now w = ((fst res, snd res), w')" using assms by simp
  from path_from_reply_failed[OF this False] show ?thesis by simp
qed

lemma generate_path_paths:
  assumes "generate_path env user topic reply now w = (res, w')"
  shows "db_paths w' = db_paths w
       \<or> (\<exists>p. db_paths w' = db_paths w @ [p] \<and> progress p = Fin 0
               \<and> (\<forall>l\<in>set (lessons p). \<not> completed l))"
proof (cases "w' = w")
  case True
  then show ?thesis by simp
next
  case False
  with assms obtain s where
    "path_from_reply env user reply now
       (w\<lparr>llm_log := llm_log w @ [\<lparr>model = ''claude-sonnet-4-20250514'', max_tokens = 2000,
                                   content = path_prompt s\<rparr>]\<rparr>) = (res, w')"
    by (auto simp: generate_path_def split: if_splits option.splits json.splits)
  from path_from_reply_paths[OF this] show ?thesis by simp
qed

lemma generate_quiz_paths:
  "generate_quiz env user a b c d reply w = (res, w') \<Longrightarrow> db_paths w' = db_paths w"
  by (auto simp: generate_quiz_def Let_def split: if_splits option.splits json.splits)

lemma submit_quiz_paths:
  "submit_quiz env user a b c d now w = (res, w') \<Longrightarrow> db_paths w' = db_paths w"
  by (auto simp: submit_quiz_def QuizResult_create_def Let_def
           split: if_splits option.splits json.splits sum.splits)

lemma progress_of_fresh: "\<forall>l\<in>set ls. \<not> completed l \<Longrightarrow> progress_of ls = Fin 0"
  by (simp add: progress_of_def filter_empty_conv)

lemma complete_lesson_paths:
  assumes "complete_lesson env user id' lessonId now w = (res, w')"
  shows "w' = w \<or> (\<exists>p'. progress p' = progress_of (lessons p')
                        \<and> set (db_paths w') \<subseteq> insert p' (set (db_paths w)))"
proof (cases "w' = w")
  case True
  then show ?thesis by simp
next
  case False
  with assms obtain pid p l where c: "ObjectId_cast env id' = Some pid"
    and p: "findOne pid user (db_paths w) = Some p"
    and l: "find (\<lambda>l. num_eq (id_l l) (parseInt lessonId)) (lessons p) = Some l"
    by (auto simp: complete_lesson_def split: option.splits)
  define ls where "ls = update_first (\<lambda>l. num_eq (id_l l) (parseInt lessonId))
                           (\<lambda>l. l\<lparr>completed := True, completedAt_l := Some now\<rparr>) (lessons p)"
  define p' where "p' = p\<lparr>lessons := ls,
      progress := js_mul (js_div (num (length (filter completed ls))) (num (length ls))) (Fin 100),
      updatedAt := now\<rparr>"
  from assms c p l have w': "w' = save p' w"
    by (simp add: complete_lesson_def Let_def p'_def ls_def)
  from update_first_find[OF l] obtain i where
    i: "i < length (lessons p)"
       "ls = (lessons p)[i := l\<lparr>completed := True, completedAt_l := Some now\<rparr>]"
    unfolding ls_def by blast
  have "completed (ls ! i)" using i by simp
  moreover have "i < length ls" using i by simp
  then have "ls ! i \<in> set ls" by (rule nth_mem)
  ultimately have "filter completed ls \<noteq> []" by (auto simp: filter_empty_conv)
  then have "progress p' = progress_of (lessons p')" by (simp add: p'_def progress_of_def)
  moreover have "set (db_paths w') \<subseteq> insert p' (set (db_paths w))"
    unfolding w' save_def using set_update_first[of "\<lambda>d. id_p d = id_p p'" "\<lambda>d. p'" "db_paths w"]
    by auto
  ultimately show ?thesis by blast
qed

lemma handle_preserves:
  assumes "progress_derivable w" "handle env session req now w = (res, w')"
  shows "progress_derivable w'"
proof (cases session)
  case None
  with assms show ?thesis by (simp add: handle_def)
next
  case (Some user)
  have inv: "\<forall>p\<in>set (db_paths w). progress p = progress_of (lessons p)"
    using assms(1) by (simp add: progress_derivable_def list_all_iff)
  have same: "db_paths w' = db_paths w \<Longrightarrow> ?thesis"
    using assms(1) by (simp add: progress_derivable_def)
  show ?thesis
  proof (cases req)
    case (GeneratePath topic reply)
    with Some assms(2) have "generate_path env user topic reply now w = (res, w')"
      by (simp add: handle_def)
    from generate_path_paths[OF this] show ?thesis
    proof
      assume "db_paths w' = db_paths w"
      then show ?thesis by (rule same)
    next
      assume "\<exists>p. db_paths w' = db_paths w @ [p] \<and> progress p = Fin 0
                 \<and> (\<forall>l\<in>set (lessons p). \<not> completed l)"
      then obtain p where p: "db_paths w' = db_paths w @ [p]" "progress p = Fin 0"
        "\<forall>l\<in>set (lessons p). \<not> completed l" by blast
      from p(3) have "progress_of (lessons p) = Fin 0" by (rule progress_of_fresh)
      with p(1,2) inv show ?thesis by (simp add: progress_derivable_def list_all_iff)
    qed
  next
    case ListPaths
    with Some assms show ?thesis by (simp add: handle_def)
  next
    case (GetPath pid)
    with Some assms show ?thesis by (simp add: handle_def)
  next
    case (CompleteLesson pid lessonId)
    with Some assms(2) have "complete_lesson env user pid lessonId now w = (res, w')"
      by (simp add: handle_def)
    from complete_lesson_paths[OF this] show ?thesis
    proof
      assume "w' = w"
      with assms(1) show ?thesis by simp
    next
      assume "\<exists>p'. progress p' = progress_of (lessons p')
                  \<and> set (db_paths w') \<subseteq> insert p' (set (db_paths w))"
      with inv show ?thesis by (auto simp: progress_derivable_def list_all_iff)
    qed
  next
    case (GenerateQuiz a b c d reply)
    with Some assms(2) have "generate_quiz env user a b c d reply w = (res, w')"
      by (simp add: handle_def)
    from generate_quiz_paths[OF this] show ?thesis by (rule same)
  next
    case (SubmitQuiz a b c d)
    with Some assms(2) have "submit_quiz env user a b c d now w = (res, w')"
      by (simp add: handle_def)
    from submit_quiz_paths[OF this] show ?thesis by (rule same)
  next
    case QuizHistory
    with Some assms show ?thesis by (simp add: handle_def)
  qed
qed

lemma reachable_derivable: "reachable env w \<Longrightarrow> progress_derivable w"
proof (induction rule: reachable.induct)
  case reachable_empty
  show ?case by (simp add: progress_derivable_def empty_world_def)
next
  case (reachable_handle w session req now res w')
  from handle_preserves[OF reachable_handle.IH reachable_handle.hyps(2)] show ?case .
qed

lemma progress_of_exact:
  "\<exists>r. progress_of ls = Fin r
      \<and> \<bar>r - (if filter completed ls = [] then 0
               else 100 * of_nat (length (filter completed ls)) / of_nat (length ls))\<bar>
          \<le> 1 / 2 ^ 45"
proof (cases "filter completed ls = []")
  case True
  then show ?thesis by (simp add: progress_of_def)
next
  case False
  then have "ls \<noteq> []" by auto
  then have n: "0 < length ls" by simp
  have c: "length (filter completed ls) \<le> length ls" by simp
  from ratio_error[OF c n] obtain r where
    "js_mul (js_div (num (length (filter completed ls))) (num (length ls))) (Fin 100) = Fin r"
    "\<bar>r - 100 * of_nat (length (filter completed ls)) / of_nat (length ls)\<bar> \<le> 1 / 2 ^ 45"
    by blast
  with False show ?thesis unfolding progress_of_def by (intro exI[of _ r]) (simp only: if_False simp_thms)
qed

text \<open>
  C7. In every state reachable from the empty store through the routes, each stored path has
  the progress its lessons' completed flags determine: 0 when none is completed, otherwise
  100 times the share of completed lessons in binary64 arithmetic, which is within
  \<open>1 / 2 ^ 45\<close> of the exact value. Every route preserves this, from any state that has it.
\<close>

theorem progress_invariant:
  "(reachable env w \<longrightarrow> progress_derivable w)
   \<and> (progress_derivable w \<and> handle env session req now w = (res, w') \<longrightarrow> progress_derivable w')
   \<and> (progress_derivable w \<and> p \<in> set (db_paths w) \<longrightarrow>
        progress p = progress_of (lessons p)
      \<and> (\<exists>r. progress p = Fin r
            \<and> \<bar>r - (if filter completed (lessons p) = [] then 0
                     else 100 * of_nat (length (filter completed (lessons p)))
                            / of_nat (length (lessons p)))\<bar> \<le> 1 / 2 ^ 45))"
proof (intro conjI impI)
  assume "reachable env w"
  then show "progress_derivable w" by (rule reachable_derivable)
next
  assume "progress_derivable w \<and> handle env session req now w = (res, w')"
  then show "progress_derivable w'" using handle_preserves by blast
next
  assume a: "progress_derivable w \<and> p \<in> set (db_paths w)"
  then show e: "progress p = progress_of (lessons p)"
    by (auto simp: progress_derivable_def list_all_iff)
  show "\<exists>r. progress p = Fin r
            \<and> \<bar>r - (if filter completed (lessons p) = [] then 0
                     else 100 * of_nat (length (filter completed (lessons p)))
                            / of_nat (length (lessons p)))\<bar> \<le> 1 / 2 ^ 45"
    unfolding e by (rule progress_of_exact)
qed

lemma reachable_snd_handle:
  "reachable env w \<Longrightarrow> reachable env (snd (handle env session req now w))"
  by (metis reachable_handle prod.collapse)

theorem progress_invariant_witness:
  "reachable run_env demo_run
   \<and> progress_derivable demo_run
   \<and> map progress (db_paths demo_run) = [Fin 20]
   \<and> map (\<lambda>p. progress_of (lessons p)) (db_paths demo_run) = [Fin 20]"
proof -
  have r: "reachable run_env demo_run"
    unfolding demo_run_def by (intro reachable_snd_handle reachable_empty)
  with progress_invariant[of run_env demo_run] have d: "progress_derivable demo_run" by blast
  have e: "map progress (db_paths demo_run) = [Fin 20]" by code_simp
  from d have "map progress (db_paths demo_run) = map (\<lambda>p. progress_of (lessons p)) (db_paths demo_run)"
    by (simp add: progress_derivable_def list_all_iff)
  with r d e show ?thesis by simp
qed

section \<open>Submitting a quiz\<close>

lemma truthy_values: "truthy v \<Longrightarrow> \<exists>vs. Object_values v = Inr vs"
  by (cases v rule: truthy.cases) simp_all


lemma percent_0_0: "percent 0 0 = NaN"
  by (simp add: percent_def num_def)

text \<open>
  C9. With \<^verbatim>\<open>pathId\<close>, \<^verbatim>\<open>lessonId\<close> and \<^verbatim>\<open>answers\<close> present and an empty list of
  questions, the check of the required fields passes (the answer is never 400), the count is
  0 and the score is the rounding of 0 / 0 times 100, which is \<^verbatim>\<open>NaN\<close>: the division is not
  guarded. The result with that score goes to the store, whose schema decides between 200
  and 500.
\<close>

theorem empty_questions_score_NaN:
  assumes "truthy pathId" "truthy lessonId" "truthy answers"
  shows "\<exists>vs d. percent 0 0 = NaN
       \<and> forEach_count answers [] 0 0 = Inr 0
       \<and> Object_values answers = Inr vs
       \<and> d = \<lparr>id_r = new_id (map id_r (db_results w)), userId_r = user, pathId_r = pathId,
               lessonId_r = lessonId, score = NaN, answers_r = vs, completedAt_r = now\<rparr>
       \<and> submit_quiz env user pathId lessonId answers (Some (JArr [])) now w
           = (if result_valid env d
              then ((200, Submitted NaN 0 0 (id_r d)), w\<lparr>db_results := db_results w @ [d]\<rparr>)
              else ((500, submit_failed), w))
       \<and> fst (fst (submit_quiz env user pathId lessonId answers (Some (JArr [])) now w)) \<noteq> 400"
proof -
  from truthy_values[OF assms(3)] obtain vs where vs: "Object_values answers = Inr vs" ..
  define d where "d = \<lparr>id_r = new_id (map id_r (db_results w)), userId_r = user, pathId_r = pathId,
               lessonId_r = lessonId, score = NaN, answers_r = vs, completedAt_r = now\<rparr>"
  have run: "submit_quiz env user pathId lessonId answers (Some (JArr [])) now w
           = (if result_valid env d
              then ((200, Submitted NaN 0 0 (id_r d)), w\<lparr>db_results := db_results w @ [d]\<rparr>)
              else ((500, submit_failed), w))"
    using assms vs
    by (simp add: submit_quiz_def QuizResult_create_def Let_def percent_0_0 d_def)
  then have "fst (fst (submit_quiz env user pathId lessonId answers (Some (JArr [])) now w)) \<noteq> 400"
    by simp
  with run vs d_def percent_0_0 show ?thesis by auto
qed

theorem empty_questions_score_NaN_witness:
  "truthy (Some (JStr ''0123456789abcdef01234567'')) \<and> truthy (Some (JNum (Fin 1)))
   \<and> truthy (Some (JObj []))
   \<and> percent 0 0 = NaN
   \<and> submit_quiz run_env 7 (Some (JStr ''0123456789abcdef01234567'')) (Some (JNum (Fin 1)))
        (Some (JObj [])) (Some (JArr [])) 1000 empty_world
      = ((500, submit_failed), empty_world)"
proof -
  have h: "truthy (Some (JStr ''0123456789abcdef01234567''))" "truthy (Some (JNum (Fin 1)))"
    "truthy (Some (JObj []))"
    by simp_all
  from empty_questions_score_NaN[OF h, where w = empty_world and user = 7 and now = 1000
      and env = run_env] obtain vs d where
    e: "percent 0 0 = NaN"
       "d = \<lparr>id_r = new_id (map id_r (db_results empty_world)), userId_r = 7,
              pathId_r = Some (JStr ''0123456789abcdef01234567''),
              lessonId_r = Some (JNum (Fin 1)), score = NaN,
              answers_r = vs, completedAt_r = 1000\<rparr>"
       "submit_quiz run_env 7 (Some (JStr ''0123456789abcdef01234567'')) (Some (JNum (Fin 1)))
          (Some (JObj [])) (Some (JArr [])) 1000 empty_world
        = (if result_valid run_env d
           then ((200, Submitted NaN 0 0 (id_r d)),
                 empty_world\<lparr>db_results := db_results empty_world @ [d]\<rparr>)
           else ((500, submit_failed), empty_world))"
    by blast
  from e(2) have "\<not> result_valid run_env d" by (simp add: run_env_def)
  with e(1,3) h show ?thesis by simp
qed

lemma forEach_count_filter:
  "forEach_count answers qs idx c =
     (case filter_correct answers qs idx of Inl e \<Rightarrow> Inl e | Inr r \<Rightarrow> Inr (c + length r))"
  by (induction qs arbitrary: idx c) (auto split: sum.splits)

lemma upt_shift: "[0 ..< Suc n] = 0 # map Suc [0 ..< n]"
  by (simp add: upt_conv_Cons map_Suc_upt del: upt_Suc)

lemma forEach_count_hits:
  "forEach_count answers qs idx c = Inr c' \<Longrightarrow>
     c' = c + length (filter (\<lambda>i. hit answers (qs ! i) (idx + i)) [0 ..< length qs])"
proof (induction qs arbitrary: idx c)
  case Nil
  then show ?case by simp
next
  case (Cons q qs)
  from Cons.prems obtain a k where
    a: "get_index answers idx = Inr a" and k: "get_prop (Some q) ''correct'' = Inr k"
    and r: "forEach_count answers qs (Suc idx) (if strict_eq a k then c + 1 else c) = Inr c'"
    by (auto split: sum.splits)
  have h: "hit answers q idx = strict_eq a k" by (simp add: hit_def a k)
  have "filter (\<lambda>i. hit answers ((q # qs) ! i) (idx + i)) [0 ..< length (q # qs)]
          = (if hit answers q idx then [0] else [])
            @ map Suc (filter (\<lambda>i. hit answers (qs ! i) (Suc idx + i)) [0 ..< length qs])"
    by (simp only: length_Cons upt_shift) (simp add: filter_map comp_def)
  then have "length (filter (\<lambda>i. hit answers ((q # qs) ! i) (idx + i)) [0 ..< length (q # qs)])
          = (if hit answers q idx then 1 else 0)
            + length (filter (\<lambda>i. hit answers (qs ! i) (Suc idx + i)) [0 ..< length qs])"
    by simp
  with Cons.IH[OF r] h show ?case by simp
qed



lemma calculateScore_eq:
  "calculateScore (Some \<lparr>pathId_q = a, lessonId_q = b, questions_q = qs\<rparr>) answers
     = (case forEach_count answers qs 0 0 of
          Inl e \<Rightarrow> Inl e
        | Inr c \<Rightarrow> Inr (percent c (length qs)))"
  by (simp add: calculateScore_def forEach_count_filter percent_def split: sum.splits)

lemma submit_quiz_ok:
  assumes "submit_quiz env user pathId lessonId answers (Some (JArr qs)) now w
             = ((200, Submitted s c n rid), w')"
  shows "forEach_count answers qs 0 0 = Inr c \<and> s = percent c (length qs) \<and> n = length qs"
  using assms
  by (auto simp: submit_quiz_def QuizResult_create_def Let_def submit_failed_def
           split: if_splits sum.splits)

text \<open>
  C10 (amended). The client's \<^verbatim>\<open>calculateScore\<close> and the server's computation agree on every
  answers value and every list of questions: they throw in the same cases, count the same
  positions (those where the answer is strictly equal to the question's \<^verbatim>\<open>correct\<close>) and
  return the same \<open>percent\<close>, the \<^verbatim>\<open>Math.round\<close> of the binary64 product. A missing answer
  counts as correct exactly when the question has no \<^verbatim>\<open>correct\<close> member.
\<close>

theorem client_score_agrees:
  "calculateScore (Some \<lparr>pathId_q = a, lessonId_q = b, questions_q = qs\<rparr>) answers
     = (case forEach_count answers qs 0 0 of
          Inl e \<Rightarrow> Inl e
        | Inr c \<Rightarrow> Inr (percent c (length qs)))
   \<and> (\<forall>s c n rid w'.
         submit_quiz env user pathId lessonId answers (Some (JArr qs)) now w
           = ((200, Submitted s c n rid), w') \<longrightarrow>
         calculateScore (Some \<lparr>pathId_q = a, lessonId_q = b, questions_q = qs\<rparr>) answers = Inr s
       \<and> s = percent c (length qs)
       \<and> c = length (filter (\<lambda>i. hit answers (qs ! i) i) [0 ..< length qs]))
   \<and> (\<forall>q idx. get_index answers idx = Inr None \<longrightarrow>
         hit answers q idx = (get_prop (Some q) ''correct'' = Inr None))"
proof (intro conjI allI impI)
  show "calculateScore (Some \<lparr>pathId_q = a, lessonId_q = b, questions_q = qs\<rparr>) answers
     = (case forEach_count answers qs 0 0 of
          Inl e \<Rightarrow> Inl e
        | Inr c \<Rightarrow> Inr (percent c (length qs)))"
    by (rule calculateScore_eq)
next
  fix s c n rid w'
  assume "submit_quiz env user pathId lessonId answers (Some (JArr qs)) now w
           = ((200, Submitted s c n rid), w')"
  from submit_quiz_ok[OF this] have
    f: "forEach_count answers qs 0 0 = Inr c" and s: "s = percent c (length qs)" by simp_all
  from f s show "calculateScore (Some \<lparr>pathId_q = a, lessonId_q = b, questions_q = qs\<rparr>) answers = Inr s"
    by (simp add: calculateScore_eq)
  from s show "s = percent c (length qs)" .
  from forEach_count_hits[OF f] show "c = length (filter (\<lambda>i. hit answers (qs ! i) i) [0 ..< length qs])"
    by simp
next
  fix q idx
  assume "get_index answers idx = Inr None"
  then show "hit answers q idx = (get_prop (Some q) ''correct'' = Inr None)"
    by (cases "get_prop (Some q) ''correct''"; cases "projr (get_prop (Some q) ''correct'')")
       (auto simp: hit_def)
qed

theorem client_score_agrees_witness:
  "fst (submit_quiz run_env 7 (Some (JStr ''0123456789abcdef01234567'')) (Some (JNum (Fin 3))) (Some demo_answers5)
          (Some (JArr demo_questions5)) 1000 empty_world) = (200, Submitted (Fin 60) 3 5 1)
   \<and> calculateScore (Some \<lparr>pathId_q = Some (JStr ''0123456789abcdef01234567''), lessonId_q = Some (JNum (Fin 3)),
                            questions_q = demo_questions5\<rparr>) (Some demo_answers5) = Inr (Fin 60)
   \<and> get_index (Some demo_answers5) 4 = Inr None
   \<and> hit (Some demo_answers5) (demo_questions5 ! 4) 4 = False"
proof -
  have h: "fst (submit_quiz run_env 7 (Some (JStr ''0123456789abcdef01234567'')) (Some (JNum (Fin 3))) (Some demo_answers5)
          (Some (JArr demo_questions5)) 1000 empty_world) = (200, Submitted (Fin 60) 3 5 1)"
    by code_simp
  then obtain w' where
    s: "submit_quiz run_env 7 (Some (JStr ''0123456789abcdef01234567'')) (Some (JNum (Fin 3))) (Some demo_answers5)
          (Some (JArr demo_questions5)) 1000 empty_world = ((200, Submitted (Fin 60) 3 5 1), w')"
    by (metis prod.collapse)
  have g: "get_index (Some demo_answers5) 4 = Inr None" by code_simp
  have p: "get_prop (Some (demo_questions5 ! 4)) ''correct'' \<noteq> Inr None" by code_simp
  note t = client_score_agrees[of "Some (JStr ''0123456789abcdef01234567'')" "Some (JNum (Fin 3))" demo_questions5
      "Some demo_answers5" run_env 7 "Some (JStr ''0123456789abcdef01234567'')" "Some (JNum (Fin 3))" 1000 empty_world]
  from t s have c: "calculateScore (Some \<lparr>pathId_q = Some (JStr ''0123456789abcdef01234567''), lessonId_q = Some (JNum (Fin 3)),
                            questions_q = demo_questions5\<rparr>) (Some demo_answers5) = Inr (Fin 60)"
    by blast
  from t g p have "hit (Some demo_answers5) (demo_questions5 ! 4) 4 = False" by blast
  with h c g show ?thesis by blast
qed

theorem client_score_counterexample:
  "get_index (Some (JObj [])) 0 = Inr None
   \<and> forEach_count (Some (JObj [])) [JObj [(''question'', JStr ''Q'')]] 0 0 = Inr 1
   \<and> fst (submit_quiz run_env 7 (Some (JStr ''0123456789abcdef01234567'')) (Some (JNum (Fin 3))) (Some (JObj []))
            (Some (JArr [JObj [(''question'', JStr ''Q'')]])) 1000 empty_world)
       = (200, Submitted (Fin 100) 1 1 1)
   \<and> calculateScore (Some \<lparr>pathId_q = Some (JStr ''0123456789abcdef01234567''), lessonId_q = Some (JNum (Fin 3)),
                            questions_q = [JObj [(''question'', JStr ''Q'')]]\<rparr>) (Some (JObj []))
       = Inr (Fin 100)
   \<and> calculateScore (Some \<lparr>pathId_q = Some (JStr ''0123456789abcdef01234567''), lessonId_q = Some (JNum (Fin 3)),
                            questions_q = demo_questions\<rparr>) (Some demo_answers)
       = Inr (Fin 57)
   \<and> \<lfloor>100 * 23 / 40 + 1 / 2 :: rat\<rfloor> = 58"
  by code_simp




section \<open>Generation from a model reply\<close>
















end
